theory Spec2Isabelle
  imports Complex_Main "HOL-Library.Word"
begin

section \<open>The Gibbs sampler worker of \<^verbatim>\<open>src/gibbs_sampler.h\<close>\<close>

text \<open>
  The development embeds the three inline member functions of \<^verbatim>\<open>GibbsSamplerThread\<close>
  (\<^verbatim>\<open>draw_sample\<close>, \<^verbatim>\<open>sample_single_variable\<close>, \<^verbatim>\<open>sample_sgd_single_variable\<close>).

  Conventions of the embedding:
  \<^item> \<^verbatim>\<open>double\<close> is the type \<open>real\<close>: all arithmetic is exact. Rounding, infinities and
    NaN are outside the model.
  \<^item> \<^verbatim>\<open>VariableValue\<close>, \<^verbatim>\<open>VariableIndex\<close> and \<^verbatim>\<open>size_t\<close> are \<open>nat\<close>; their declarations
    (and so their widths) are in headers that this file only includes.
  \<^item> The raw arrays reached through \<^verbatim>\<open>.get()\<close> or \<^verbatim>\<open>operator[]\<close> of the inference
    result and the factor graph are indexed without a check in the source; they are total
    maps from the index to the element.
  \<^item> \<^verbatim>\<open>abort()\<close> and a failed \<^verbatim>\<open>assert\<close> end the process: they are the \<open>Inl\<close> results
    of the functions. \<^verbatim>\<open>assert\<close> is the macro of \<^verbatim>\<open>cassert\<close> as it expands when
    \<^verbatim>\<open>NDEBUG\<close> is not defined (nothing in the header defines it).
\<close>

subsection \<open>Data\<close>

type_synonym VariableValue = nat
type_synonym VariableIndex = nat

text \<open>
  The enumeration of domain types. \<open>DTYPE_OTHER\<close> stands for every enumerator that
  reaches the \<^verbatim>\<open>default\<close> branch of a \<^verbatim>\<open>switch\<close>.
\<close>

datatype DomainType = DTYPE_BOOLEAN | DTYPE_MULTINOMIAL | DTYPE_OTHER

text \<open>
  The members of \<^verbatim>\<open>Variable\<close> that the header reads. The class is declared in
  \<^verbatim>\<open>factor_graph.h\<close>; its method \<^verbatim>\<open>get_domain_index\<close> and its static constant
  \<^verbatim>\<open>INVALID_VALUE\<close> are taken as they come, as fields. \<open>domain_map\<close> is the optional
  sparse map, as the list of its entries \<open>(first, second)\<close> in the order in which a
  range-based \<^verbatim>\<open>for\<close> visits them; \<open>None\<close> is the null pointer. The member \<^verbatim>\<open>id\<close> is
  \<open>id'\<close> here.
\<close>

record Variable =
  id' :: VariableIndex
  domain_type :: DomainType
  is_evid :: bool
  is_observation :: bool
  cardinality :: nat
  assignment_evid :: VariableValue
  n_start_i_tally :: nat
  domain_map :: "(VariableValue \<times> nat) list option"
  get_domain_index :: "VariableValue \<Rightarrow> nat"
  INVALID_VALUE :: VariableValue

record InferenceResult =
  assignments_evid :: "VariableIndex \<Rightarrow> VariableValue"
  assignments_free :: "VariableIndex \<Rightarrow> VariableValue"
  weight_values :: "nat \<Rightarrow> real"
  agg_nsamples :: "VariableIndex \<Rightarrow> nat"
  agg_means :: "VariableIndex \<Rightarrow> real"
  multinomial_tallies :: "nat \<Rightarrow> nat"

text \<open>
  \<^verbatim>\<open>CompactFactorGraph\<close>: the array of variables and the two operations the worker calls,
  \<^verbatim>\<open>potential\<close> (a function of its arguments) and \<^verbatim>\<open>update_weight\<close> (which receives the
  inference result by reference and returns it updated). Both are defined outside the
  header and are parameters of everything below.
\<close>

record CompactFactorGraph =
  variables :: "VariableIndex \<Rightarrow> Variable"
  potential :: "Variable \<Rightarrow> VariableValue \<Rightarrow> (VariableIndex \<Rightarrow> VariableValue)
                  \<Rightarrow> (nat \<Rightarrow> real) \<Rightarrow> real"
  update_weight :: "Variable \<Rightarrow> InferenceResult \<Rightarrow> real \<Rightarrow> InferenceResult"

text \<open>
  A \<^verbatim>\<open>std::vector\<close> of \<^verbatim>\<open>double\<close>: its storage, its element count and its capacity.
  \<^verbatim>\<open>reserve\<close> raises the capacity and leaves the element count alone; \<^verbatim>\<open>operator[]\<close>
  does not look at either.
\<close>

record double_vector =
  elems :: "nat \<Rightarrow> real"
  vsize :: nat
  vcapacity :: nat

definition reserve :: "nat \<Rightarrow> double_vector \<Rightarrow> double_vector" where
  "reserve n v = (if vcapacity v < n then v\<lparr>vcapacity := n\<rparr> else v)"

definition vstore :: "double_vector \<Rightarrow> nat \<Rightarrow> real \<Rightarrow> double_vector" where
  "vstore v i x = v\<lparr>elems := (elems v)(i := x)\<rparr>"

definition vload :: "double_vector \<Rightarrow> nat \<Rightarrow> real" where
  "vload v i = elems v i"

type_synonym rand_seed = "16 word \<times> 16 word \<times> 16 word"

text \<open>
  The members of \<^verbatim>\<open>GibbsSamplerThread\<close>. The references \<^verbatim>\<open>fg\<close> and \<^verbatim>\<open>infrs\<close> hold the
  current value of what they refer to; \<^verbatim>\<open>end\<close> is \<open>end_vid\<close> and
  \<^verbatim>\<open>varlen_potential_buffer_\<close> is \<open>varlen_potential_buffer\<close>.
\<close>

record GibbsSamplerThread =
  start :: VariableIndex
  end_vid :: VariableIndex
  p_rand_seed :: rand_seed
  varlen_potential_buffer :: double_vector
  fg :: CompactFactorGraph
  infrs :: InferenceResult
  sample_evidence :: bool
  learn_non_evidence :: bool

datatype fatal = Abort | AssertionFailure

subsection \<open>Library functions\<close>

text \<open>
  \<^verbatim>\<open>erand48\<close> of the C library, as POSIX specifies it: the three shorts are the 48-bit
  state \<open>X\<close> (the first the low bits), the next state is \<open>(a X + c) mod 2^48\<close> with
  \<open>a = 0x5DEECE66D\<close> and \<open>c = 0xB\<close>, it is stored back, and the result is the new state
  divided by \<open>2^48\<close>.
\<close>

definition erand48 :: "rand_seed \<Rightarrow> real \<times> rand_seed" where
  "erand48 xsubi =
     (case xsubi of (x0, x1, x2) \<Rightarrow>
        let X = unat x2 * 2 ^ 32 + unat x1 * 2 ^ 16 + unat x0;
            X' = (25214903917 * X + 11) mod 2 ^ 48
        in (real X' / 2 ^ 48,
            (word_of_nat X', word_of_nat (X' div 2 ^ 16), word_of_nat (X' div 2 ^ 32))))"

text \<open>
  Modelled from the spec: \<^verbatim>\<open>logadd\<close> is defined in \<^verbatim>\<open>common.h\<close>, which is not among the
  sources. The specification gives it as \<open>log(e^sum + e^potential)\<close>.
\<close>

definition logadd :: "real \<Rightarrow> real \<Rightarrow> real" where
  "logadd log_a log_b = ln (exp log_a + exp log_b)"

subsection \<open>\<^verbatim>\<open>draw_sample\<close>\<close>

text \<open>The coin of the boolean case (lines 196 to 200).\<close>

definition flip_coin :: "real \<Rightarrow> real \<Rightarrow> real \<Rightarrow> VariableValue" where
  "flip_coin potential_pos potential_neg r =
     (if r * (1 + exp (potential_neg - potential_pos)) < 1 then 1 else 0)"

text \<open>
  The two instances of the macro \<^verbatim>\<open>COMPUTE_PROPOSAL\<close> differ in the domain they walk:
  the entries of the sparse map (value \<open>entry.first\<close>, index \<open>entry.second\<close>), or
  \<open>i = 0, \<dots>, cardinality - 1\<close> with value and index both \<open>i\<close>.
\<close>

definition each_domain_value :: "Variable \<Rightarrow> (VariableValue \<times> nat) list" where
  "each_domain_value variable =
     (case domain_map variable of
        Some entries \<Rightarrow> entries
      | None \<Rightarrow> map (\<lambda>i. (i, i)) [0..<cardinality variable])"

text \<open>The first loop of the macro: store each potential and fold it into \<open>sum\<close>.\<close>

fun compute_potentials ::
  "(VariableValue \<Rightarrow> real) \<Rightarrow> (VariableValue \<times> nat) list \<Rightarrow> double_vector \<Rightarrow> real
     \<Rightarrow> double_vector \<times> real" where
  "compute_potentials pot [] buf sum_acc = (buf, sum_acc)"
| "compute_potentials pot ((domain_value, domain_index) # rest) buf sum_acc =
     (let buf' = vstore buf domain_index (pot domain_value);
          sum_next = logadd sum_acc (vload buf' domain_index)
      in compute_potentials pot rest buf' sum_next)"

text \<open>
  The second loop: subtract each normalised probability from \<open>r\<close> and stop at the first
  value with \<open>r \<le> 0\<close>. When the loop runs out, \<open>proposal\<close> is what it was before.
\<close>

fun select_proposal ::
  "double_vector \<Rightarrow> real \<Rightarrow> (VariableValue \<times> nat) list \<Rightarrow> real \<Rightarrow> VariableValue
     \<Rightarrow> VariableValue" where
  "select_proposal buf sum_acc [] r proposal = proposal"
| "select_proposal buf sum_acc ((domain_value, domain_index) # rest) r proposal =
     (let r' = r - exp (vload buf domain_index - sum_acc)
      in if r' \<le> 0 then domain_value else select_proposal buf sum_acc rest r' proposal)"

definition draw_sample ::
  "GibbsSamplerThread \<Rightarrow> Variable \<Rightarrow> (VariableIndex \<Rightarrow> VariableValue) \<Rightarrow> (nat \<Rightarrow> real)
     \<Rightarrow> fatal + (VariableValue \<times> GibbsSamplerThread)" where
  "draw_sample this variable assignments wv =
     (case domain_type variable of
        DTYPE_BOOLEAN \<Rightarrow>
          (let potential_pos = potential (fg this) variable 1 assignments wv;
               potential_neg = potential (fg this) variable 0 assignments wv;
               (r, seed') = erand48 (p_rand_seed this)
           in Inr (flip_coin potential_pos potential_neg r, this\<lparr>p_rand_seed := seed'\<rparr>))
      | DTYPE_MULTINOMIAL \<Rightarrow>
          (let buf0 = reserve (cardinality variable) (varlen_potential_buffer this);
               (buf1, sum_acc) =
                 compute_potentials (\<lambda>v. potential (fg this) variable v assignments wv)
                   (each_domain_value variable) buf0 (- 100000);
               (r, seed') = erand48 (p_rand_seed this);
               proposal =
                 select_proposal buf1 sum_acc (each_domain_value variable) r
                   (INVALID_VALUE variable)
           in if proposal \<noteq> INVALID_VALUE variable
              then Inr (proposal,
                     this\<lparr>p_rand_seed := seed', varlen_potential_buffer := buf1\<rparr>)
              else Inl AssertionFailure)
      | DTYPE_OTHER \<Rightarrow> Inl Abort)"

subsection \<open>\<^verbatim>\<open>sample_single_variable\<close> and \<^verbatim>\<open>sample_sgd_single_variable\<close>\<close>

definition sample_single_variable ::
  "GibbsSamplerThread \<Rightarrow> VariableIndex \<Rightarrow> fatal + GibbsSamplerThread" where
  "sample_single_variable this vid =
     (let variable = variables (fg this) vid
      in if is_observation variable then Inr this
         else if \<not> is_evid variable \<or> sample_evidence this then
           (case draw_sample this variable (assignments_evid (infrs this))
                   (weight_values (infrs this)) of
              Inl e \<Rightarrow> Inl e
            | Inr (proposal, this') \<Rightarrow>
                (let i1 = (infrs this')\<lparr>assignments_evid :=
                            (assignments_evid (infrs this'))(id' variable := proposal)\<rparr>;
                     i2 = i1\<lparr>agg_nsamples :=
                            (agg_nsamples i1)(id' variable := agg_nsamples i1 (id' variable) + 1)\<rparr>
                 in case domain_type variable of
                      DTYPE_BOOLEAN \<Rightarrow>
                        Inr (this'\<lparr>infrs := i2\<lparr>agg_means :=
                          (agg_means i2)(id' variable :=
                             agg_means i2 (id' variable) + real proposal)\<rparr>\<rparr>)
                    | DTYPE_MULTINOMIAL \<Rightarrow>
                        (let slot = n_start_i_tally variable + get_domain_index variable proposal
                         in Inr (this'\<lparr>infrs := i2\<lparr>multinomial_tallies :=
                              (multinomial_tallies i2)(slot := multinomial_tallies i2 slot + 1)\<rparr>\<rparr>))
                    | DTYPE_OTHER \<Rightarrow> Inl Abort))
         else Inr this)"

definition sample_sgd_single_variable ::
  "GibbsSamplerThread \<Rightarrow> VariableIndex \<Rightarrow> real \<Rightarrow> fatal + GibbsSamplerThread" where
  "sample_sgd_single_variable this vid stepsize =
     (let variable = variables (fg this) vid
      in if is_observation variable then Inr this
         else if \<not> learn_non_evidence this \<and> \<not> is_evid variable then Inr this
         else
           (case (if is_evid variable then Inr (assignment_evid variable, this)
                  else draw_sample this variable (assignments_evid (infrs this))
                         (weight_values (infrs this))) of
              Inl e \<Rightarrow> Inl e
            | Inr (proposal, this1) \<Rightarrow>
                (let this2 = this1\<lparr>infrs := (infrs this1)\<lparr>assignments_evid :=
                               (assignments_evid (infrs this1))(id' variable := proposal)\<rparr>\<rparr>
                 in case draw_sample this2 variable (assignments_free (infrs this2))
                           (weight_values (infrs this2)) of
                      Inl e \<Rightarrow> Inl e
                    | Inr (proposal', this3) \<Rightarrow>
                        (let this4 = this3\<lparr>infrs := (infrs this3)\<lparr>assignments_free :=
                               (assignments_free (infrs this3))(id' variable := proposal')\<rparr>\<rparr>
                         in Inr (this4\<lparr>infrs :=
                               update_weight (fg this4) variable (infrs this4) stepsize\<rparr>)))))"

text \<open>
  The second loop leaves without its \<^verbatim>\<open>break\<close>: the test \<open>r \<le> 0\<close> is false at every
  domain value.
\<close>

fun loop_exhausted ::
  "double_vector \<Rightarrow> real \<Rightarrow> (VariableValue \<times> nat) list \<Rightarrow> real \<Rightarrow> bool" where
  "loop_exhausted buf sum_acc [] r = True"
| "loop_exhausted buf sum_acc ((domain_value, domain_index) # rest) r =
     (let r' = r - exp (vload buf domain_index - sum_acc)
      in \<not> r' \<le> 0 \<and> loop_exhausted buf sum_acc rest r')"

text \<open>The two guards of \<^verbatim>\<open>sample_single_variable\<close>: the variable is drawn and counted.\<close>

definition is_sampled :: "GibbsSamplerThread \<Rightarrow> VariableIndex \<Rightarrow> bool" where
  "is_sampled this vid =
     (let variable = variables (fg this) vid
      in \<not> is_observation variable \<and> (\<not> is_evid variable \<or> sample_evidence this))"

text \<open>The two guards of \<^verbatim>\<open>sample_sgd_single_variable\<close>: the variable is learned from.\<close>

definition is_learned :: "GibbsSamplerThread \<Rightarrow> VariableIndex \<Rightarrow> bool" where
  "is_learned this vid =
     (let variable = variables (fg this) vid
      in \<not> is_observation variable \<and> (learn_non_evidence this \<or> is_evid variable))"

subsection \<open>Member functions that the header only declares\<close>

text \<open>
  Modelled from the spec: \<^verbatim>\<open>set_random_seed\<close> is declared in the header (line 118) and
  defined elsewhere. Its comment there reads "Resets RNG seed to given values".
\<close>

definition set_random_seed ::
  "GibbsSamplerThread \<Rightarrow> 16 word \<Rightarrow> 16 word \<Rightarrow> 16 word \<Rightarrow> GibbsSamplerThread" where
  "set_random_seed this s0 s1 s2 = this\<lparr>p_rand_seed := (s0, s1, s2)\<rparr>"

text \<open>
  Modelled from the spec: \<^verbatim>\<open>sample()\<close> and \<^verbatim>\<open>sample_sgd(stepsize)\<close> are declared in the
  header (lines 90 and 98) and defined elsewhere. The specification gives both sweeps as
  "for each variable id in \<open>[start, end)\<close>, in increasing id order" one call of the
  single-variable function. A fatal condition ends the sweep.
\<close>

fun for_each_vid ::
  "(GibbsSamplerThread \<Rightarrow> VariableIndex \<Rightarrow> fatal + GibbsSamplerThread) \<Rightarrow> VariableIndex list
     \<Rightarrow> GibbsSamplerThread \<Rightarrow> fatal + GibbsSamplerThread" where
  "for_each_vid body [] this = Inr this"
| "for_each_vid body (vid # vids) this =
     (case body this vid of
        Inl e \<Rightarrow> Inl e
      | Inr this' \<Rightarrow> for_each_vid body vids this')"

definition sample :: "GibbsSamplerThread \<Rightarrow> fatal + GibbsSamplerThread" where
  "sample this = for_each_vid sample_single_variable [start this..<end_vid this] this"

definition sample_sgd :: "GibbsSamplerThread \<Rightarrow> real \<Rightarrow> fatal + GibbsSamplerThread" where
  "sample_sgd this stepsize =
     for_each_vid (\<lambda>this' vid. sample_sgd_single_variable this' vid stepsize)
       [start this..<end_vid this] this"

subsection \<open>Epochs\<close>




subsection \<open>Sequences of draws\<close>

text \<open>
  The values that successive calls of \<^verbatim>\<open>draw_sample\<close> on one worker return, each call
  with its own variable, assignment array and weight array. The sequence ends with the
  fatal condition of the call that does not return, if there is one.
\<close>

fun draw_samples ::
  "GibbsSamplerThread
     \<Rightarrow> (Variable \<times> (VariableIndex \<Rightarrow> VariableValue) \<times> (nat \<Rightarrow> real)) list
     \<Rightarrow> (fatal + VariableValue) list" where
  "draw_samples this [] = []"
| "draw_samples this ((variable, assignments, wv) # calls) =
     (case draw_sample this variable assignments wv of
        Inl e \<Rightarrow> [Inl e]
      | Inr (proposal, this') \<Rightarrow> Inr proposal # draw_samples this' calls)"

subsection \<open>A small factor graph\<close>

text \<open>
  Four variables, each with its own id: 0 is a free boolean variable, 1 a boolean
  evidence variable observed as 1, 2 a boolean observation, 3 a dense multinomial
  variable of cardinality 2. The potential of a candidate value is the weight with that
  value's index; the weight update moves the variable's weight by the step size times
  the difference of its two assignments.
\<close>

definition example_variable :: "VariableIndex \<Rightarrow> Variable" where
  "example_variable vid =
     \<lparr>id' = vid,
      domain_type = (if vid = 3 then DTYPE_MULTINOMIAL else DTYPE_BOOLEAN),
      is_evid = (vid = 1),
      is_observation = (vid = 2),
      cardinality = 2,
      assignment_evid = (if vid = 1 then 1 else 0),
      n_start_i_tally = 0,
      domain_map = None,
      get_domain_index = (\<lambda>v. v),
      INVALID_VALUE = 18446744073709551615\<rparr>"

definition example_graph :: CompactFactorGraph where
  "example_graph =
     \<lparr>variables = example_variable,
      potential = (\<lambda>variable v assignments wv. wv v),
      update_weight = (\<lambda>variable i stepsize.
         i\<lparr>weight_values := (weight_values i)(id' variable :=
              weight_values i (id' variable)
                + stepsize * (real (assignments_evid i (id' variable))
                              - real (assignments_free i (id' variable))))\<rparr>)\<rparr>"

text \<open>
  A worker on the shard \<open>[0, 3)\<close> of this graph as its constructor would leave it: an
  empty scratch vector, all assignments and aggregates 0. Its seed and the weights are
  parameters.
\<close>

definition example_worker :: "rand_seed \<Rightarrow> (nat \<Rightarrow> real) \<Rightarrow> GibbsSamplerThread" where
  "example_worker seed wv =
     \<lparr>start = 0, end_vid = 3, p_rand_seed = seed,
      varlen_potential_buffer = \<lparr>elems = (\<lambda>i. 0), vsize = 0, vcapacity = 0\<rparr>,
      fg = example_graph,
      infrs = \<lparr>assignments_evid = (\<lambda>vid. 0), assignments_free = (\<lambda>vid. 0),
               weight_values = wv,
               agg_nsamples = (\<lambda>vid. 0), agg_means = (\<lambda>vid. 0),
               multinomial_tallies = (\<lambda>i. 0)\<rparr>,
      sample_evidence = False, learn_non_evidence = True\<rparr>"

subsection \<open>Workers that differ in their scratch buffer only\<close>

definition up_to_buffer :: "GibbsSamplerThread \<Rightarrow> GibbsSamplerThread \<Rightarrow> bool" where
  "up_to_buffer this1 this2 =
     (this2 = this1\<lparr>varlen_potential_buffer := varlen_potential_buffer this2\<rparr>)"

section \<open>The boolean coin\<close>

lemma flip_coin_accepts_iff:
  "flip_coin p1 p0 r = 1 \<longleftrightarrow> r < exp p1 / (exp p1 + exp p0)"
proof -
  have pos: "0 < exp p1 + exp p0"
    by (simp add: add_pos_pos)
  have "1 + exp (p0 - p1) = (exp p1 + exp p0) / exp p1"
    by (simp add: exp_diff add_divide_distrib)
  then have "r * (1 + exp (p0 - p1)) < 1 \<longleftrightarrow> r * (exp p1 + exp p0) / exp p1 < 1"
    by simp
  also have "\<dots> \<longleftrightarrow> r * (exp p1 + exp p0) < exp p1"
    by (simp add: divide_less_eq)
  also have "\<dots> \<longleftrightarrow> r < exp p1 / (exp p1 + exp p0)"
    using pos by (simp add: less_divide_eq)
  finally show ?thesis
    by (simp add: flip_coin_def)
qed

text \<open>
  The draws \<open>r\<close> of \<open>[0, 1)\<close> on which the coin gives the value 1 are the interval
  \<open>[0, q)\<close> with \<open>q = exp p1 / (exp p1 + exp p0)\<close>, and \<open>q\<close> lies strictly between 0 and 1.
\<close>

lemma coin_acceptance_set:
  "{r. 0 \<le> r \<and> r < 1 \<and> flip_coin p1 p0 r = 1} = {0 ..< exp p1 / (exp p1 + exp p0)}
   \<and> 0 < exp p1 / (exp p1 + exp p0) \<and> exp p1 / (exp p1 + exp p0) < 1"
proof -
  have q1: "exp p1 / (exp p1 + exp p0) < 1"
    by (simp add: divide_less_eq add_pos_pos)
  have q0: "0 < exp p1 / (exp p1 + exp p0)"
    by (simp add: add_pos_pos)
  have "{r. 0 \<le> r \<and> r < 1 \<and> flip_coin p1 p0 r = 1} = {0 ..< exp p1 / (exp p1 + exp p0)}"
    using q1 by (auto simp: flip_coin_accepts_iff [unfolded One_nat_def])
  with q0 q1 show ?thesis
    by blast
qed

section \<open>Facts about the library functions\<close>

lemma erand48_range: "0 \<le> fst (erand48 seed) \<and> fst (erand48 seed) < 1"
  by (cases seed) (simp add: erand48_def Let_def)

lemma exp_logadd: "exp (logadd a b) = exp a + exp b"
  by (simp add: logadd_def add_pos_pos)

lemma exp_diff_logadd: "exp (p - logadd a b) = exp p / (exp a + exp b)"
  by (simp add: exp_diff exp_logadd)

lemma exp_minus_logadd: "exp (- logadd a b) = 1 / (exp a + exp b)"
  by (simp add: exp_minus exp_logadd inverse_eq_divide)

section \<open>What \<^verbatim>\<open>draw_sample\<close> changes\<close>

lemma draw_sample_frame:
  assumes "draw_sample this variable a w = Inr (v, this')"
  shows "this' = this\<lparr>p_rand_seed := snd (erand48 (p_rand_seed this)),
                      varlen_potential_buffer := varlen_potential_buffer this'\<rparr>"
  using assms
  by (auto simp: draw_sample_def Let_def split: DomainType.splits prod.splits if_splits)

lemma draw_sample_keeps:
  assumes "draw_sample this variable a w = Inr (v, this')"
  shows "infrs this' = infrs this" and "fg this' = fg this"
    and "sample_evidence this' = sample_evidence this"
    and "learn_non_evidence this' = learn_non_evidence this"
    and "start this' = start this" and "end_vid this' = end_vid this"
  using assms
  by (auto simp: draw_sample_def Let_def split: DomainType.splits prod.splits if_splits)

lemma draw_sample_boolean:
  assumes "domain_type variable = DTYPE_BOOLEAN"
  shows "draw_sample this variable a w =
           Inr (flip_coin (potential (fg this) variable 1 a w) (potential (fg this) variable 0 a w)
                  (fst (erand48 (p_rand_seed this))),
                this\<lparr>p_rand_seed := snd (erand48 (p_rand_seed this))\<rparr>)"
  using assms by (simp add: draw_sample_def Let_def split: prod.splits)

lemma compute_potentials_size:
  "vsize (fst (compute_potentials pot es buf s)) = vsize buf"
  "vcapacity (fst (compute_potentials pot es buf s)) = vcapacity buf"
  by (induction es arbitrary: buf s) (auto simp: Let_def vstore_def)

lemma draw_sample_vsize:
  assumes "draw_sample this variable a w = Inr (v, this')"
  shows "vsize (varlen_potential_buffer this') = vsize (varlen_potential_buffer this)"
proof (cases "domain_type variable")
  case DTYPE_BOOLEAN
  with assms show ?thesis
    by (auto simp: draw_sample_def Let_def split: prod.splits)
next
  case DTYPE_MULTINOMIAL
  with assms have "varlen_potential_buffer this' =
      fst (compute_potentials (\<lambda>v. potential (fg this) variable v a w)
             (each_domain_value variable)
             (reserve (cardinality variable) (varlen_potential_buffer this)) (- 100000))"
    by (auto simp: draw_sample_def Let_def split: prod.splits if_splits)
  then show ?thesis
    by (simp add: compute_potentials_size reserve_def)
next
  case DTYPE_OTHER
  with assms show ?thesis
    by (simp add: draw_sample_def)
qed

section \<open>The boolean draw\<close>

text \<open>
  C1. For a boolean variable, with \<open>p1\<close> and \<open>p0\<close> the potentials of the values 1 and 0
  and \<open>r\<close> the result of \<^verbatim>\<open>erand48\<close> on the worker's seed: \<^verbatim>\<open>draw_sample\<close> returns 1 if
  \<open>r < q\<close> and 0 otherwise, where \<open>q = exp p1 / (exp p1 + exp p0)\<close>; \<open>r\<close> lies in \<open>[0, 1)\<close>;
  and, with exact reals, the draws of \<open>[0, 1)\<close> that the acceptance rule
  \<open>r * (1 + exp (p0 - p1)) < 1\<close> accepts are exactly the interval \<open>[0, q)\<close>, with
  \<open>0 < q < 1\<close>. The accepting set is an interval of length \<open>q\<close>, so a uniform draw returns
  1 with probability \<open>q\<close>.
\<close>

theorem boolean_draw_probability:
  assumes "domain_type variable = DTYPE_BOOLEAN"
  shows "draw_sample this variable a w =
           Inr (if fst (erand48 (p_rand_seed this))
                     < exp (potential (fg this) variable 1 a w)
                         / (exp (potential (fg this) variable 1 a w)
                            + exp (potential (fg this) variable 0 a w))
                then 1 else 0,
                this\<lparr>p_rand_seed := snd (erand48 (p_rand_seed this))\<rparr>)
       \<and> 0 \<le> fst (erand48 (p_rand_seed this)) \<and> fst (erand48 (p_rand_seed this)) < 1
       \<and> {r. 0 \<le> r \<and> r < 1
              \<and> flip_coin (potential (fg this) variable 1 a w)
                   (potential (fg this) variable 0 a w) r = 1}
           = {0 ..< exp (potential (fg this) variable 1 a w)
                      / (exp (potential (fg this) variable 1 a w)
                         + exp (potential (fg this) variable 0 a w))}
       \<and> 0 < exp (potential (fg this) variable 1 a w)
                / (exp (potential (fg this) variable 1 a w)
                   + exp (potential (fg this) variable 0 a w))
       \<and> exp (potential (fg this) variable 1 a w)
            / (exp (potential (fg this) variable 1 a w)
               + exp (potential (fg this) variable 0 a w)) < 1"
proof -
  let ?p1 = "potential (fg this) variable 1 a w" and ?p0 = "potential (fg this) variable 0 a w"
  let ?r = "fst (erand48 (p_rand_seed this))"
  have "flip_coin ?p1 ?p0 ?r = (if ?r < exp ?p1 / (exp ?p1 + exp ?p0) then 1 else 0)"
  proof (cases "flip_coin ?p1 ?p0 ?r = 1")
    case True
    with flip_coin_accepts_iff [of ?p1 ?p0 ?r] show ?thesis by simp
  next
    case False
    then have "flip_coin ?p1 ?p0 ?r = 0"
      by (simp add: flip_coin_def split: if_splits)
    with False flip_coin_accepts_iff [of ?p1 ?p0 ?r] show ?thesis by simp
  qed
  then have "draw_sample this variable a w =
      Inr (if ?r < exp ?p1 / (exp ?p1 + exp ?p0) then 1 else 0,
           this\<lparr>p_rand_seed := snd (erand48 (p_rand_seed this))\<rparr>)"
    by (simp add: draw_sample_boolean [OF assms])
  with erand48_range [of "p_rand_seed this"] coin_acceptance_set [of ?p1 ?p0]
  show ?thesis
    by blast
qed

section \<open>The value of a multinomial draw\<close>

lemma draw_sample_multinomial:
  assumes "domain_type variable = DTYPE_MULTINOMIAL"
  shows "draw_sample this variable a w =
     (let cp = compute_potentials (\<lambda>v. potential (fg this) variable v a w)
                 (each_domain_value variable)
                 (reserve (cardinality variable) (varlen_potential_buffer this)) (- 100000);
          proposal = select_proposal (fst cp) (snd cp) (each_domain_value variable)
                       (fst (erand48 (p_rand_seed this))) (INVALID_VALUE variable)
      in if proposal \<noteq> INVALID_VALUE variable
         then Inr (proposal, this\<lparr>p_rand_seed := snd (erand48 (p_rand_seed this)),
                                   varlen_potential_buffer := fst cp\<rparr>)
         else Inl AssertionFailure)"
  using assms by (simp add: draw_sample_def Let_def case_prod_beta)

lemma select_proposal_cases:
  "select_proposal buf s es r p = p \<or> select_proposal buf s es r p \<in> fst ` set es"
proof (induction es arbitrary: r)
  case Nil
  show ?case by simp
next
  case (Cons e es)
  obtain v j where e: "e = (v, j)" by (cases e)
  show ?case
    using Cons.IH [of "r - exp (vload buf j - s)"] by (auto simp: e Let_def)
qed

lemma loop_exhausted_select_proposal:
  "loop_exhausted buf s es r \<Longrightarrow> select_proposal buf s es r p = p"
  by (induction es arbitrary: r) (auto simp: Let_def)

lemma draw_sample_multinomial_in_domain:
  assumes "draw_sample this variable a w = Inr (v, this')"
    and "domain_type variable = DTYPE_MULTINOMIAL"
  shows "v \<in> fst ` set (each_domain_value variable)" and "v \<noteq> INVALID_VALUE variable"
  using assms select_proposal_cases
  by (fastforce simp: draw_sample_def Let_def split: prod.splits if_splits)+

section \<open>The scratch buffer does not reach the result\<close>

lemma compute_potentials_sum:
  "snd (compute_potentials pot es buf s) = snd (compute_potentials pot es buf' s)"
  by (induction es arbitrary: buf buf' s) (auto simp: Let_def vstore_def vload_def)

lemma compute_potentials_agree:
  "\<forall>i\<in>A. elems buf i = elems buf' i \<Longrightarrow>
   \<forall>i\<in>A \<union> snd ` set es.
      elems (fst (compute_potentials pot es buf s)) i
        = elems (fst (compute_potentials pot es buf' s)) i"
proof (induction es arbitrary: buf buf' s A)
  case Nil
  then show ?case by simp
next
  case (Cons e es)
  obtain v j where e: "e = (v, j)" by (cases e)
  let ?b = "vstore buf j (pot v)" and ?b' = "vstore buf' j (pot v)"
  have "\<forall>i\<in>insert j A. elems ?b i = elems ?b' i"
    using Cons.prems by (simp add: vstore_def)
  from Cons.IH [OF this, of "logadd s (pot v)"]
  show ?case
    by (simp add: e Let_def vload_def vstore_def)
qed

lemma select_proposal_agree:
  "\<forall>i\<in>snd ` set es. elems buf i = elems buf' i \<Longrightarrow>
   select_proposal buf s es r p = select_proposal buf' s es r p"
  by (induction es arbitrary: r) (auto simp: Let_def vload_def)

lemma multinomial_proposal_buffer_free:
  "select_proposal (fst (compute_potentials pot es buf s)) (snd (compute_potentials pot es buf s)) es r p
   = select_proposal (fst (compute_potentials pot es buf' s)) (snd (compute_potentials pot es buf' s)) es r p"
proof -
  have "\<forall>i\<in>{} \<union> snd ` set es.
      elems (fst (compute_potentials pot es buf s)) i
        = elems (fst (compute_potentials pot es buf' s)) i"
    by (rule compute_potentials_agree) simp
  then have "select_proposal (fst (compute_potentials pot es buf s)) (snd (compute_potentials pot es buf s)) es r p
     = select_proposal (fst (compute_potentials pot es buf' s)) (snd (compute_potentials pot es buf s)) es r p"
    by (intro select_proposal_agree) simp
  then show ?thesis
    using compute_potentials_sum [of pot es buf s buf'] by simp
qed

text \<open>The outcome of a draw as its caller sees it: the value and the seed it leaves.\<close>

lemma draw_sample_outcome:
  assumes "p_rand_seed this2 = p_rand_seed this1" and "fg this2 = fg this1"
  shows "map_sum id (\<lambda>(v, t). (v, p_rand_seed t)) (draw_sample this1 variable a w)
       = map_sum id (\<lambda>(v, t). (v, p_rand_seed t)) (draw_sample this2 variable a w)"
proof (cases "domain_type variable")
  case DTYPE_BOOLEAN
  then show ?thesis
    using assms by (simp add: draw_sample_boolean)
next
  case DTYPE_MULTINOMIAL
  show ?thesis
    using multinomial_proposal_buffer_free
      [of "\<lambda>v. potential (fg this1) variable v a w" "each_domain_value variable"
          "reserve (cardinality variable) (varlen_potential_buffer this1)" "- 100000"
          "fst (erand48 (p_rand_seed this1))" "INVALID_VALUE variable"
          "reserve (cardinality variable) (varlen_potential_buffer this2)"]
    by (simp add: draw_sample_multinomial DTYPE_MULTINOMIAL assms Let_def)
next
  case DTYPE_OTHER
  then show ?thesis
    by (simp add: draw_sample_def)
qed

lemma up_to_buffer_iff:
  "up_to_buffer t1 t2 \<longleftrightarrow>
     start t2 = start t1 \<and> end_vid t2 = end_vid t1 \<and> p_rand_seed t2 = p_rand_seed t1
     \<and> fg t2 = fg t1 \<and> infrs t2 = infrs t1 \<and> sample_evidence t2 = sample_evidence t1
     \<and> learn_non_evidence t2 = learn_non_evidence t1"
  by (cases t1; cases t2) (auto simp: up_to_buffer_def)

lemma draw_sample_up_to_buffer:
  assumes "up_to_buffer this1 this2"
  shows "rel_sum (=) (\<lambda>(v1, t1) (v2, t2). v1 = v2 \<and> up_to_buffer t1 t2)
           (draw_sample this1 variable a w) (draw_sample this2 variable a w)"
proof -
  from assms have eq: "p_rand_seed this2 = p_rand_seed this1" "fg this2 = fg this1"
    by (simp_all add: up_to_buffer_iff)
  note out = draw_sample_outcome [OF eq, of variable a w]
  show ?thesis
  proof (cases "draw_sample this1 variable a w")
    case (Inl e)
    with out have "draw_sample this2 variable a w = Inl e"
      by (cases "draw_sample this2 variable a w") auto
    with Inl show ?thesis by simp
  next
    case (Inr r)
    obtain v t1 where r: "r = (v, t1)" by (cases r)
    from out Inr r obtain t2 where 2: "draw_sample this2 variable a w = Inr (v, t2)"
      by (cases "draw_sample this2 variable a w") auto
    have "up_to_buffer t1 t2"
      using draw_sample_keeps [OF Inr [unfolded r]] draw_sample_keeps [OF 2]
        draw_sample_frame [OF Inr [unfolded r]] draw_sample_frame [OF 2] assms
      by (simp add: up_to_buffer_iff) (metis GibbsSamplerThread.select_convs(3) GibbsSamplerThread.surjective GibbsSamplerThread.update_convs(3,4))
    with Inr r 2 show ?thesis by simp
  qed
qed

lemma draw_sample_up_to_buffer_Inl:
  assumes "up_to_buffer this1 this2" and "draw_sample this1 variable a w = Inl e"
  shows "draw_sample this2 variable a w = Inl e"
  using draw_sample_up_to_buffer [OF assms(1), of variable a w] assms(2)
  by (cases "draw_sample this2 variable a w") auto

lemma draw_sample_up_to_buffer_Inr:
  assumes "up_to_buffer this1 this2" and "draw_sample this1 variable a w = Inr (v, t1)"
  shows "\<exists>t2. draw_sample this2 variable a w = Inr (v, t2) \<and> up_to_buffer t1 t2"
  using draw_sample_up_to_buffer [OF assms(1), of variable a w] assms(2)
  by (cases "draw_sample this2 variable a w") auto

lemma up_to_buffer_infrs_update:
  "up_to_buffer t1 t2 \<Longrightarrow> up_to_buffer (t1\<lparr>infrs := i\<rparr>) (t2\<lparr>infrs := i\<rparr>)"
  by (simp add: up_to_buffer_iff)

lemma sample_single_variable_up_to_buffer:
  assumes "up_to_buffer this1 this2"
  shows "rel_sum (=) up_to_buffer
           (sample_single_variable this1 vid) (sample_single_variable this2 vid)"
proof -
  from assms have eq: "fg this2 = fg this1" "infrs this2 = infrs this1"
      "sample_evidence this2 = sample_evidence this1"
    by (simp_all add: up_to_buffer_iff)
  let ?var = "variables (fg this1) vid"
  let ?d = "\<lambda>t. draw_sample t ?var (assignments_evid (infrs this1)) (weight_values (infrs this1))"
  show ?thesis
  proof (cases "is_sampled this1 vid")
    case False
    with assms eq show ?thesis
      by (auto simp: sample_single_variable_def is_sampled_def Let_def)
  next
    case True
    show ?thesis
    proof (cases "?d this1")
      case (Inl e)
      from draw_sample_up_to_buffer_Inl [OF assms Inl] True Inl eq show ?thesis
        by (auto simp: sample_single_variable_def is_sampled_def Let_def)
    next
      case (Inr r)
      obtain v t1 where r: "r = (v, t1)" by (cases r)
      from draw_sample_up_to_buffer_Inr [OF assms Inr [unfolded r]]
      obtain t2 where 2: "?d this2 = Inr (v, t2)" and u: "up_to_buffer t1 t2"
        by blast
      from u have i: "infrs t2 = infrs t1"
        by (simp add: up_to_buffer_iff)
      from True Inr r 2 eq i up_to_buffer_infrs_update [OF u] show ?thesis
        by (cases "domain_type ?var")
          (auto simp: sample_single_variable_def is_sampled_def Let_def)
    qed
  qed
qed

lemma sample_sgd_single_variable_up_to_buffer:
  assumes "up_to_buffer this1 this2"
  shows "rel_sum (=) up_to_buffer
           (sample_sgd_single_variable this1 vid stepsize)
           (sample_sgd_single_variable this2 vid stepsize)"
proof -
  from assms have eq: "fg this2 = fg this1" "infrs this2 = infrs this1"
      "learn_non_evidence this2 = learn_non_evidence this1"
    by (simp_all add: up_to_buffer_iff)
  let ?var = "variables (fg this1) vid"
  let ?first = "\<lambda>t. if is_evid ?var then Inr (assignment_evid ?var, t)
                     else draw_sample t ?var (assignments_evid (infrs this1))
                            (weight_values (infrs this1))"
  show ?thesis
  proof (cases "is_learned this1 vid")
    case False
    with assms eq show ?thesis
      by (auto simp: sample_sgd_single_variable_def is_learned_def Let_def)
  next
    case True
    show ?thesis
    proof (cases "?first this1")
      case (Inl e)
      then have "?first this2 = Inl e"
        using draw_sample_up_to_buffer_Inl [OF assms] by (auto split: if_splits)
      with True Inl eq show ?thesis
        by (auto simp: sample_sgd_single_variable_def is_learned_def Let_def)
    next
      case (Inr r)
      obtain v t1 where r: "r = (v, t1)" by (cases r)
      have "\<exists>t2. ?first this2 = Inr (v, t2) \<and> up_to_buffer t1 t2"
      proof (cases "is_evid ?var")
        case True
        with Inr r assms show ?thesis by auto
      next
        case False
        with Inr r draw_sample_up_to_buffer_Inr [OF assms, of ?var _ _ v t1] show ?thesis
          by simp
      qed
      then obtain t2 where 2: "?first this2 = Inr (v, t2)" and u: "up_to_buffer t1 t2"
        by blast
      from u have i: "infrs t2 = infrs t1" and f: "fg t2 = fg t1"
        by (simp_all add: up_to_buffer_iff)
      let ?i = "(infrs t1)\<lparr>assignments_evid := (assignments_evid (infrs t1))(id' ?var := v)\<rparr>"
      let ?u1 = "t1\<lparr>infrs := ?i\<rparr>" and ?u2 = "t2\<lparr>infrs := ?i\<rparr>"
      have uu: "up_to_buffer ?u1 ?u2"
        by (rule up_to_buffer_infrs_update [OF u])
      let ?second = "\<lambda>t. draw_sample t ?var (assignments_free ?i) (weight_values ?i)"
      have s1: "sample_sgd_single_variable this1 vid stepsize =
          (case ?second ?u1 of Inl e \<Rightarrow> Inl e
           | Inr (v', t3) \<Rightarrow>
               (let t4 = t3\<lparr>infrs := (infrs t3)\<lparr>assignments_free :=
                             (assignments_free (infrs t3))(id' ?var := v')\<rparr>\<rparr>
                in Inr (t4\<lparr>infrs := update_weight (fg t4) ?var (infrs t4) stepsize\<rparr>)))"
        using True Inr r
        by (auto simp: sample_sgd_single_variable_def is_learned_def Let_def)
      have s2: "sample_sgd_single_variable this2 vid stepsize =
          (case ?second ?u2 of Inl e \<Rightarrow> Inl e
           | Inr (v', t3) \<Rightarrow>
               (let t4 = t3\<lparr>infrs := (infrs t3)\<lparr>assignments_free :=
                             (assignments_free (infrs t3))(id' ?var := v')\<rparr>\<rparr>
                in Inr (t4\<lparr>infrs := update_weight (fg t4) ?var (infrs t4) stepsize\<rparr>)))"
        using True 2 eq i
        by (auto simp: sample_sgd_single_variable_def is_learned_def Let_def)
      show ?thesis
      proof (cases "?second ?u1")
        case (Inl e)
        from draw_sample_up_to_buffer_Inl [OF uu Inl] Inl show ?thesis
          by (simp add: s1 s2)
      next
        case (Inr r')
        obtain v' t3 where r': "r' = (v', t3)" by (cases r')
        from draw_sample_up_to_buffer_Inr [OF uu Inr [unfolded r']]
        obtain t3' where 3: "?second ?u2 = Inr (v', t3')" and u3: "up_to_buffer t3 t3'"
          by blast
        from u3 have "infrs t3' = infrs t3" "fg t3' = fg t3"
          by (simp_all add: up_to_buffer_iff)
        with Inr r' 3 u3 show ?thesis
          by (simp add: s1 s2 Let_def up_to_buffer_iff)
      qed
    qed
  qed
qed

lemma for_each_vid_up_to_buffer:
  assumes body: "\<And>t1 t2 vid. up_to_buffer t1 t2 \<Longrightarrow> rel_sum (=) up_to_buffer (body t1 vid) (body t2 vid)"
    and "up_to_buffer this1 this2"
  shows "rel_sum (=) up_to_buffer (for_each_vid body vids this1) (for_each_vid body vids this2)"
  using assms(2)
proof (induction vids arbitrary: this1 this2)
  case Nil
  then show ?case by simp
next
  case (Cons vid vids)
  from body [OF Cons.prems, of vid] show ?case
    by (cases "body this1 vid"; cases "body this2 vid") (auto intro: Cons.IH)
qed

section \<open>The single-variable functions, case by case\<close>

lemma sample_single_variable_skipped:
  "\<not> is_sampled this vid \<Longrightarrow> sample_single_variable this vid = Inr this"
  by (auto simp: sample_single_variable_def is_sampled_def Let_def)

lemma sample_single_variable_halts:
  assumes "is_sampled this vid"
    and "draw_sample this (variables (fg this) vid) (assignments_evid (infrs this))
           (weight_values (infrs this)) = Inl e"
  shows "sample_single_variable this vid = Inl e"
  using assms by (auto simp: sample_single_variable_def is_sampled_def Let_def)

lemma sample_single_variable_sampled:
  assumes "is_sampled this vid"
    and "draw_sample this (variables (fg this) vid) (assignments_evid (infrs this))
           (weight_values (infrs this)) = Inr (proposal, this1)"
  shows "sample_single_variable this vid =
     (let variable = variables (fg this) vid;
          i2 = (infrs this)\<lparr>
                 assignments_evid := (assignments_evid (infrs this))(id' variable := proposal),
                 agg_nsamples := (agg_nsamples (infrs this))
                    (id' variable := agg_nsamples (infrs this) (id' variable) + 1)\<rparr>
      in case domain_type variable of
           DTYPE_BOOLEAN \<Rightarrow>
             Inr (this1\<lparr>infrs := i2\<lparr>agg_means := (agg_means (infrs this))
                    (id' variable := agg_means (infrs this) (id' variable) + real proposal)\<rparr>\<rparr>)
         | DTYPE_MULTINOMIAL \<Rightarrow>
             Inr (this1\<lparr>infrs := i2\<lparr>multinomial_tallies := (multinomial_tallies (infrs this))
                    (n_start_i_tally variable + get_domain_index variable proposal :=
                       multinomial_tallies (infrs this)
                         (n_start_i_tally variable + get_domain_index variable proposal) + 1)\<rparr>\<rparr>)
         | DTYPE_OTHER \<Rightarrow> Inl Abort)"
  using assms draw_sample_keeps(1) [OF assms(2)]
  by (auto simp: sample_single_variable_def is_sampled_def Let_def split: DomainType.splits)

lemma sample_sgd_single_variable_skipped:
  "\<not> is_learned this vid \<Longrightarrow> sample_sgd_single_variable this vid stepsize = Inr this"
  by (auto simp: sample_sgd_single_variable_def is_learned_def Let_def)

lemma sample_sgd_single_variable_learned:
  assumes "is_learned this vid"
  shows "sample_sgd_single_variable this vid stepsize =
     (let variable = variables (fg this) vid
      in case (if is_evid variable then Inr (assignment_evid variable, this)
               else draw_sample this variable (assignments_evid (infrs this))
                      (weight_values (infrs this))) of
           Inl e \<Rightarrow> Inl e
         | Inr (proposal, this1) \<Rightarrow>
             (let i = (infrs this)\<lparr>assignments_evid :=
                         (assignments_evid (infrs this))(id' variable := proposal)\<rparr>
              in case draw_sample (this1\<lparr>infrs := i\<rparr>) variable (assignments_free (infrs this))
                        (weight_values (infrs this)) of
                   Inl e \<Rightarrow> Inl e
                 | Inr (proposal', this3) \<Rightarrow>
                     Inr (this3\<lparr>infrs := update_weight (fg this) variable
                            (i\<lparr>assignments_free :=
                                 (assignments_free (infrs this))(id' variable := proposal')\<rparr>)
                            stepsize\<rparr>)))"
proof -
  let ?var = "variables (fg this) vid"
  let ?first = "if is_evid ?var then Inr (assignment_evid ?var, this)
                else draw_sample this ?var (assignments_evid (infrs this))
                       (weight_values (infrs this))"
  show ?thesis
  proof (cases ?first)
    case (Inl e)
    with assms show ?thesis
      by (auto simp: sample_sgd_single_variable_def is_learned_def Let_def)
  next
    case (Inr r)
    obtain v t1 where r: "r = (v, t1)" by (cases r)
    from Inr r have k: "infrs t1 = infrs this" "fg t1 = fg this"
      using draw_sample_keeps(1,2) [of this ?var _ _ v t1] by (auto split: if_splits)
    let ?i = "(infrs this)\<lparr>assignments_evid := (assignments_evid (infrs this))(id' ?var := v)\<rparr>"
    let ?second = "draw_sample (t1\<lparr>infrs := ?i\<rparr>) ?var (assignments_free (infrs this))
                        (weight_values (infrs this))"
    show ?thesis
    proof (cases ?second)
      case (Inl e)
      with assms Inr r k show ?thesis
        by (auto simp: sample_sgd_single_variable_def is_learned_def Let_def)
    next
      case (Inr r')
      obtain v' t3 where r': "r' = (v', t3)" by (cases r')
      from draw_sample_keeps(1,2) [OF Inr [unfolded r']] k
      have "infrs t3 = ?i" "fg t3 = fg this" by simp_all
      with assms \<open>?first = Inr r\<close> r Inr r' k show ?thesis
        by (auto simp: sample_sgd_single_variable_def is_learned_def Let_def)
    qed
  qed
qed

text \<open>
  C5. A call of \<^verbatim>\<open>sample_single_variable\<close> on a variable that is not an observation, when
  it returns: if the variable is not evidence or \<open>sample_evidence\<close> is set, the drawn value
  is stored in the variable's slot of the evidence assignments, its sample counter is one
  higher, and its mean accumulator (boolean) or the tally slot of the drawn value
  (multinomial) is updated; otherwise the worker is exactly as before.
\<close>

theorem inference_write_iff:
  assumes "\<not> is_observation (variables (fg this) vid)"
    and "sample_single_variable this vid = Inr this'"
  shows "if \<not> is_evid (variables (fg this) vid) \<or> sample_evidence this
         then \<exists>proposal this1.
                draw_sample this (variables (fg this) vid) (assignments_evid (infrs this))
                  (weight_values (infrs this)) = Inr (proposal, this1)
              \<and> assignments_evid (infrs this') =
                  (assignments_evid (infrs this))(id' (variables (fg this) vid) := proposal)
              \<and> agg_nsamples (infrs this') =
                  (agg_nsamples (infrs this))(id' (variables (fg this) vid) :=
                     agg_nsamples (infrs this) (id' (variables (fg this) vid)) + 1)
              \<and> (case domain_type (variables (fg this) vid) of
                    DTYPE_BOOLEAN \<Rightarrow>
                      agg_means (infrs this') =
                        (agg_means (infrs this))(id' (variables (fg this) vid) :=
                           agg_means (infrs this) (id' (variables (fg this) vid)) + real proposal)
                      \<and> multinomial_tallies (infrs this') = multinomial_tallies (infrs this)
                  | DTYPE_MULTINOMIAL \<Rightarrow>
                      multinomial_tallies (infrs this') =
                        (multinomial_tallies (infrs this))
                          (n_start_i_tally (variables (fg this) vid)
                             + get_domain_index (variables (fg this) vid) proposal :=
                           multinomial_tallies (infrs this)
                             (n_start_i_tally (variables (fg this) vid)
                                + get_domain_index (variables (fg this) vid) proposal) + 1)
                      \<and> agg_means (infrs this') = agg_means (infrs this)
                  | DTYPE_OTHER \<Rightarrow> False)
         else this' = this"
proof (cases "is_sampled this vid")
  case False
  with assms sample_single_variable_skipped [OF False] show ?thesis
    by (auto simp: is_sampled_def Let_def)
next
  case True
  let ?var = "variables (fg this) vid"
  let ?d = "draw_sample this ?var (assignments_evid (infrs this)) (weight_values (infrs this))"
  from True have c: "\<not> is_evid ?var \<or> sample_evidence this"
    by (simp add: is_sampled_def Let_def)
  show ?thesis
  proof (cases ?d)
    case (Inl e)
    from sample_single_variable_halts [OF True Inl] assms(2) show ?thesis
      by simp
  next
    case (Inr r)
    obtain v t1 where r: "r = (v, t1)" by (cases r)
    from sample_single_variable_sampled [OF True Inr [unfolded r]] assms(2)
    have "(case domain_type ?var of
             DTYPE_BOOLEAN \<Rightarrow>
               infrs this' = (infrs this)\<lparr>
                 assignments_evid := (assignments_evid (infrs this))(id' ?var := v),
                 agg_nsamples := (agg_nsamples (infrs this))
                    (id' ?var := agg_nsamples (infrs this) (id' ?var) + 1),
                 agg_means := (agg_means (infrs this))
                    (id' ?var := agg_means (infrs this) (id' ?var) + real v)\<rparr>
           | DTYPE_MULTINOMIAL \<Rightarrow>
               infrs this' = (infrs this)\<lparr>
                 assignments_evid := (assignments_evid (infrs this))(id' ?var := v),
                 agg_nsamples := (agg_nsamples (infrs this))
                    (id' ?var := agg_nsamples (infrs this) (id' ?var) + 1),
                 multinomial_tallies := (multinomial_tallies (infrs this))
                    (n_start_i_tally ?var + get_domain_index ?var v :=
                       multinomial_tallies (infrs this)
                         (n_start_i_tally ?var + get_domain_index ?var v) + 1)\<rparr>
           | DTYPE_OTHER \<Rightarrow> False)"
      by (cases "domain_type ?var") (auto simp: Let_def)
    with c Inr r show ?thesis
      by (cases "domain_type ?var") auto
  qed
qed

lemma body_keeps_fg:
  "sample_single_variable this vid = Inr this' \<Longrightarrow> fg this' = fg this"
  "sample_sgd_single_variable this vid stepsize = Inr this'' \<Longrightarrow> fg this'' = fg this"
proof -
  assume a: "sample_single_variable this vid = Inr this'"
  show "fg this' = fg this"
  proof (cases "is_sampled this vid")
    case False
    with a sample_single_variable_skipped [OF False] show ?thesis by simp
  next
    case True
    let ?var = "variables (fg this) vid"
    let ?d = "draw_sample this ?var (assignments_evid (infrs this)) (weight_values (infrs this))"
    show ?thesis
    proof (cases ?d)
      case (Inl e)
      from sample_single_variable_halts [OF True Inl] a show ?thesis by simp
    next
      case (Inr r)
      obtain v t1 where r: "r = (v, t1)" by (cases r)
      from sample_single_variable_sampled [OF True Inr [unfolded r]] a
        draw_sample_keeps(2) [OF Inr [unfolded r]]
      show ?thesis
        by (cases "domain_type ?var") (auto simp: Let_def)
    qed
  qed
next
  assume a: "sample_sgd_single_variable this vid stepsize = Inr this''"
  show "fg this'' = fg this"
  proof (cases "is_learned this vid")
    case False
    with a sample_sgd_single_variable_skipped [OF False] show ?thesis by simp
  next
    case True
    from a [unfolded sample_sgd_single_variable_learned [OF True]]
    show ?thesis
      by (auto simp: Let_def split: sum.splits prod.splits if_splits
          dest!: draw_sample_keeps(2))
  qed
qed

lemma for_each_vid_drop_observations:
  assumes keeps: "\<And>t v t'. body t v = Inr t' \<Longrightarrow> fg t' = fg t"
    and skips: "\<And>t v. is_observation (variables (fg t) v) \<Longrightarrow> body t v = Inr t"
  shows "for_each_vid body vids this =
         for_each_vid body (filter (\<lambda>v. \<not> is_observation (variables (fg this) v)) vids) this"
proof (induction vids arbitrary: this)
  case Nil
  show ?case by simp
next
  case (Cons vid vids)
  show ?case
  proof (cases "is_observation (variables (fg this) vid)")
    case True
    with skips [OF True] Cons.IH [of this] show ?thesis by simp
  next
    case False
    show ?thesis
    proof (cases "body this vid")
      case (Inl e)
      with False show ?thesis by simp
    next
      case (Inr t')
      with False keeps [OF Inr] Cons.IH [of t'] show ?thesis by simp
    qed
  qed
qed

text \<open>
  A sampling sweep and an SGD sweep are the sweeps over the variables of the shard that
  are not observations.
\<close>

lemma sweeps_skip_observations:
  "(is_observation (variables (fg this) vid) \<longrightarrow>
      sample_single_variable this vid = Inr this
      \<and> sample_sgd_single_variable this vid stepsize = Inr this)
   \<and> sample this =
        for_each_vid sample_single_variable
          (filter (\<lambda>v. \<not> is_observation (variables (fg this) v)) [start this..<end_vid this]) this
   \<and> sample_sgd this stepsize =
        for_each_vid (\<lambda>this' v. sample_sgd_single_variable this' v stepsize)
          (filter (\<lambda>v. \<not> is_observation (variables (fg this) v)) [start this..<end_vid this]) this"
proof -
  have 1: "sample_single_variable t v = Inr t" if "is_observation (variables (fg t) v)" for t v
    using that by (simp add: sample_single_variable_skipped is_sampled_def)
  have 2: "sample_sgd_single_variable t v stepsize = Inr t"
    if "is_observation (variables (fg t) v)" for t v
    using that by (simp add: sample_sgd_single_variable_skipped is_learned_def)
  have 3: "for_each_vid sample_single_variable vids this =
      for_each_vid sample_single_variable
        (filter (\<lambda>v. \<not> is_observation (variables (fg this) v)) vids) this" for vids
    by (rule for_each_vid_drop_observations) (simp_all add: body_keeps_fg(1) 1)
  have 4: "for_each_vid (\<lambda>this' v. sample_sgd_single_variable this' v stepsize) vids this =
      for_each_vid (\<lambda>this' v. sample_sgd_single_variable this' v stepsize)
        (filter (\<lambda>v. \<not> is_observation (variables (fg this) v)) vids) this" for vids
    by (rule for_each_vid_drop_observations) (simp_all add: body_keeps_fg(2) 2)
  from 1 2 3 4 show ?thesis
    by (simp add: sample_def sample_sgd_def)
qed

text \<open>
  C7. A call of \<^verbatim>\<open>sample_sgd_single_variable\<close> that processes its variable and returns:
  for an evidence variable the value stored in the evidence assignments is its
  \<open>assignment_evid\<close> and the worker reaches the free pass as it started (no draw was made);
  for any other variable the stored value is the value of a \<^verbatim>\<open>draw_sample\<close> call on the
  evidence assignments. The free pass draws on the free assignments, and the weight update
  receives both stored values.
\<close>

theorem sgd_evidence_pass:
  assumes "is_learned this vid"
    and "sample_sgd_single_variable this vid stepsize = Inr this'"
  shows "\<exists>proposal this1 proposal' this3.
      (if is_evid (variables (fg this) vid)
       then proposal = assignment_evid (variables (fg this) vid) \<and> this1 = this
       else draw_sample this (variables (fg this) vid) (assignments_evid (infrs this))
              (weight_values (infrs this)) = Inr (proposal, this1))
      \<and> draw_sample
           (this1\<lparr>infrs := (infrs this)\<lparr>assignments_evid :=
              (assignments_evid (infrs this))(id' (variables (fg this) vid) := proposal)\<rparr>\<rparr>)
           (variables (fg this) vid) (assignments_free (infrs this))
           (weight_values (infrs this)) = Inr (proposal', this3)
      \<and> this' = this3\<lparr>infrs :=
           update_weight (fg this) (variables (fg this) vid)
             ((infrs this)\<lparr>
                assignments_evid :=
                  (assignments_evid (infrs this))(id' (variables (fg this) vid) := proposal),
                assignments_free :=
                  (assignments_free (infrs this))(id' (variables (fg this) vid) := proposal')\<rparr>)
             stepsize\<rparr>"
  using assms(2) [unfolded sample_sgd_single_variable_learned [OF assms(1)]]
  by (auto simp: Let_def split: sum.splits prod.splits if_splits)

section \<open>A loop that selects nothing\<close>

lemma sample_sgd_single_variable_returns:
  assumes "is_learned this vid"
    and "sample_sgd_single_variable this vid stepsize = Inr this'"
  shows "\<exists>proposal this1 proposal' this3.
      (if is_evid (variables (fg this) vid)
       then proposal = assignment_evid (variables (fg this) vid) \<and> this1 = this
       else draw_sample this (variables (fg this) vid) (assignments_evid (infrs this))
              (weight_values (infrs this)) = Inr (proposal, this1))
      \<and> draw_sample
           (this1\<lparr>infrs := (infrs this)\<lparr>assignments_evid :=
              (assignments_evid (infrs this))(id' (variables (fg this) vid) := proposal)\<rparr>\<rparr>)
           (variables (fg this) vid) (assignments_free (infrs this))
           (weight_values (infrs this)) = Inr (proposal', this3)
      \<and> this' = this3\<lparr>infrs :=
           update_weight (fg this) (variables (fg this) vid)
             ((infrs this)\<lparr>
                assignments_evid :=
                  (assignments_evid (infrs this))(id' (variables (fg this) vid) := proposal),
                assignments_free :=
                  (assignments_free (infrs this))(id' (variables (fg this) vid) := proposal')\<rparr>)
             stepsize\<rparr>"
  using assms(2) [unfolded sample_sgd_single_variable_learned [OF assms(1)]]
  by (auto simp: Let_def split: sum.splits prod.splits if_splits)

text \<open>
  C3. For a multinomial variable: when the second loop runs out with \<open>r \<le> 0\<close> false at
  every domain value, \<^verbatim>\<open>draw_sample\<close> ends in the failed assertion; it never returns
  \<open>INVALID_VALUE\<close>; and when one of its two callers returns, the values it has stored from
  draws (the evidence slot after \<^verbatim>\<open>sample_single_variable\<close>, the slots handed to the weight
  update in \<^verbatim>\<open>sample_sgd_single_variable\<close>) are not \<open>INVALID_VALUE\<close>.
\<close>

theorem exhausted_loop_halts:
  assumes "domain_type variable = DTYPE_MULTINOMIAL"
  shows "(compute_potentials (\<lambda>v. potential (fg this) variable v a w)
             (each_domain_value variable)
             (reserve (cardinality variable) (varlen_potential_buffer this)) (- 100000)
           = (buf, sum_acc)
          \<and> loop_exhausted buf sum_acc (each_domain_value variable)
               (fst (erand48 (p_rand_seed this)))
          \<longrightarrow> draw_sample this variable a w = Inl AssertionFailure)
       \<and> (\<forall>this'. draw_sample this variable a w \<noteq> Inr (INVALID_VALUE variable, this'))
       \<and> (\<forall>vid this'.
             variables (fg this) vid = variable \<and> is_sampled this vid
             \<and> sample_single_variable this vid = Inr this'
             \<longrightarrow> assignments_evid (infrs this') (id' variable) \<noteq> INVALID_VALUE variable)
       \<and> (\<forall>vid stepsize this'.
             variables (fg this) vid = variable \<and> is_learned this vid
             \<and> sample_sgd_single_variable this vid stepsize = Inr this'
             \<longrightarrow> (\<exists>i. infrs this' = update_weight (fg this) variable i stepsize
                    \<and> assignments_free i (id' variable) \<noteq> INVALID_VALUE variable
                    \<and> (is_evid variable
                        \<or> assignments_evid i (id' variable) \<noteq> INVALID_VALUE variable)))"
proof (intro conjI allI impI)
  assume "compute_potentials (\<lambda>v. potential (fg this) variable v a w)
             (each_domain_value variable)
             (reserve (cardinality variable) (varlen_potential_buffer this)) (- 100000)
           = (buf, sum_acc)
          \<and> loop_exhausted buf sum_acc (each_domain_value variable)
               (fst (erand48 (p_rand_seed this)))"
  then show "draw_sample this variable a w = Inl AssertionFailure"
    by (simp add: draw_sample_multinomial [OF assms] loop_exhausted_select_proposal)
next
  fix this'
  show "draw_sample this variable a w \<noteq> Inr (INVALID_VALUE variable, this')"
    using draw_sample_multinomial_in_domain(2) [OF _ assms] by blast
next
  fix vid this'
  assume a: "variables (fg this) vid = variable \<and> is_sampled this vid
             \<and> sample_single_variable this vid = Inr this'"
  let ?d = "draw_sample this variable (assignments_evid (infrs this)) (weight_values (infrs this))"
  show "assignments_evid (infrs this') (id' variable) \<noteq> INVALID_VALUE variable"
  proof (cases ?d)
    case (Inl e)
    with a sample_single_variable_halts [of this vid e] show ?thesis by auto
  next
    case (Inr r)
    obtain v t1 where r: "r = (v, t1)" by (cases r)
    from draw_sample_multinomial_in_domain(2) [OF Inr [unfolded r] assms]
      sample_single_variable_sampled [of this vid v t1] a Inr r assms
    show ?thesis
      by (auto simp: Let_def)
  qed
next
  fix vid stepsize this'
  assume a: "variables (fg this) vid = variable \<and> is_learned this vid
             \<and> sample_sgd_single_variable this vid stepsize = Inr this'"
  then have l: "is_learned this vid" and v: "variables (fg this) vid = variable"
    and s: "sample_sgd_single_variable this vid stepsize = Inr this'"
    by simp_all
  from sample_sgd_single_variable_returns [OF l s] v
  obtain proposal this1 proposal' this3 where
    1: "if is_evid variable then proposal = assignment_evid variable \<and> this1 = this
        else draw_sample this variable (assignments_evid (infrs this))
               (weight_values (infrs this)) = Inr (proposal, this1)"
    and 2: "draw_sample
           (this1\<lparr>infrs := (infrs this)\<lparr>assignments_evid :=
              (assignments_evid (infrs this))(id' variable := proposal)\<rparr>\<rparr>)
           variable (assignments_free (infrs this)) (weight_values (infrs this))
           = Inr (proposal', this3)"
    and 3: "this' = this3\<lparr>infrs :=
           update_weight (fg this) variable
             ((infrs this)\<lparr>
                assignments_evid := (assignments_evid (infrs this))(id' variable := proposal),
                assignments_free := (assignments_free (infrs this))(id' variable := proposal')\<rparr>)
             stepsize\<rparr>"
    by auto
  let ?i = "(infrs this)\<lparr>
                assignments_evid := (assignments_evid (infrs this))(id' variable := proposal),
                assignments_free := (assignments_free (infrs this))(id' variable := proposal')\<rparr>"
  have "proposal' \<noteq> INVALID_VALUE variable"
    by (rule draw_sample_multinomial_in_domain(2) [OF 2 assms])
  moreover have "is_evid variable \<or> proposal \<noteq> INVALID_VALUE variable"
    using 1 draw_sample_multinomial_in_domain(2) [OF _ assms] by (auto split: if_splits)
  ultimately
  have "infrs this' = update_weight (fg this) variable ?i stepsize
          \<and> assignments_free ?i (id' variable) \<noteq> INVALID_VALUE variable
          \<and> (is_evid variable \<or> assignments_evid ?i (id' variable) \<noteq> INVALID_VALUE variable)"
    using 3 by simp
  then show "\<exists>i. infrs this' = update_weight (fg this) variable i stepsize
          \<and> assignments_free i (id' variable) \<noteq> INVALID_VALUE variable
          \<and> (is_evid variable \<or> assignments_evid i (id' variable) \<noteq> INVALID_VALUE variable)"
    by (rule exI)
qed

section \<open>Observations through sweeps and epochs\<close>









section \<open>Aggregates\<close>

lemma sample_single_variable_keeps:
  assumes "sample_single_variable this vid = Inr this'"
  shows "fg this' = fg this" and "sample_evidence this' = sample_evidence this"
    and "is_sampled this' = is_sampled this"
proof -
  show f: "fg this' = fg this"
    by (rule body_keeps_fg(1) [OF assms])
  show s: "sample_evidence this' = sample_evidence this"
  proof (cases "is_sampled this vid")
    case False
    with assms sample_single_variable_skipped [OF False] show ?thesis by simp
  next
    case True
    let ?var = "variables (fg this) vid"
    let ?d = "draw_sample this ?var (assignments_evid (infrs this)) (weight_values (infrs this))"
    show ?thesis
    proof (cases ?d)
      case (Inl e)
      from sample_single_variable_halts [OF True Inl] assms show ?thesis by simp
    next
      case (Inr r)
      obtain v t1 where r: "r = (v, t1)" by (cases r)
      from sample_single_variable_sampled [OF True Inr [unfolded r]] assms
        draw_sample_keeps(3) [OF Inr [unfolded r]]
      show ?thesis
        by (cases "domain_type ?var") (auto simp: Let_def)
    qed
  qed
  from f s show "is_sampled this' = is_sampled this"
    by (simp add: is_sampled_def fun_eq_iff)
qed

lemma sample_single_variable_aggregates:
  assumes "sample_single_variable this vid = Inr this'"
  shows "agg_nsamples (infrs this') k =
           agg_nsamples (infrs this) k
             + (if is_sampled this vid \<and> id' (variables (fg this) vid) = k then 1 else 0)"
    and "agg_means (infrs this) k \<le> agg_means (infrs this') k"
    and "multinomial_tallies (infrs this) j \<le> multinomial_tallies (infrs this') j"
proof -
  let ?var = "variables (fg this) vid"
  let ?d = "draw_sample this ?var (assignments_evid (infrs this)) (weight_values (infrs this))"
  have "agg_nsamples (infrs this') k =
           agg_nsamples (infrs this) k + (if is_sampled this vid \<and> id' ?var = k then 1 else 0)
      \<and> agg_means (infrs this) k \<le> agg_means (infrs this') k
      \<and> multinomial_tallies (infrs this) j \<le> multinomial_tallies (infrs this') j"
  proof (cases "is_sampled this vid")
    case False
    with assms sample_single_variable_skipped [OF False] show ?thesis by simp
  next
    case True
    show ?thesis
    proof (cases ?d)
      case (Inl e)
      from sample_single_variable_halts [OF True Inl] assms show ?thesis by simp
    next
      case (Inr r)
      obtain v t1 where r: "r = (v, t1)" by (cases r)
      from sample_single_variable_sampled [OF True Inr [unfolded r]] assms True
      show ?thesis
        by (cases "domain_type ?var") (auto simp: Let_def)
    qed
  qed
  then show "agg_nsamples (infrs this') k =
           agg_nsamples (infrs this) k
             + (if is_sampled this vid \<and> id' (variables (fg this) vid) = k then 1 else 0)"
    and "agg_means (infrs this) k \<le> agg_means (infrs this') k"
    and "multinomial_tallies (infrs this) j \<le> multinomial_tallies (infrs this') j"
    by simp_all
qed

lemma inference_sweep_aggregates:
  assumes "for_each_vid sample_single_variable vids this = Inr this'"
  shows "agg_nsamples (infrs this') k =
           agg_nsamples (infrs this) k
             + length (filter (\<lambda>vid. is_sampled this vid \<and> id' (variables (fg this) vid) = k) vids)
       \<and> agg_means (infrs this) k \<le> agg_means (infrs this') k
       \<and> multinomial_tallies (infrs this) j \<le> multinomial_tallies (infrs this') j"
  using assms
proof (induction vids arbitrary: this)
  case Nil
  then show ?case by simp
next
  case (Cons vid vids)
  from Cons.prems obtain t where t: "sample_single_variable this vid = Inr t"
    and rest: "for_each_vid sample_single_variable vids t = Inr this'"
    by (auto split: sum.splits)
  note k = sample_single_variable_keeps [OF t]
  from Cons.IH [OF rest] sample_single_variable_aggregates(1) [OF t, of k]
    sample_single_variable_aggregates(2) [OF t, of k]
    sample_single_variable_aggregates(3) [OF t, of j] k
  show ?case
    by auto
qed

lemma count_in_range:
  "length (filter (\<lambda>vid. P vid \<and> vid = k) [a..<b]) = (if a \<le> k \<and> k < b \<and> P k then 1 else 0)"
proof -
  have "filter (\<lambda>vid. P vid \<and> vid = k) [a..<b] = (if a \<le> k \<and> k < b \<and> P k then [k] else [])"
    by (induction b) auto
  then show ?thesis by simp
qed

lemma sample_sgd_single_variable_aggregates:
  assumes "sample_sgd_single_variable this vid stepsize = Inr this'"
    and "\<forall>variable i s. agg_nsamples (update_weight (fg this) variable i s) = agg_nsamples i
           \<and> agg_means (update_weight (fg this) variable i s) = agg_means i
           \<and> multinomial_tallies (update_weight (fg this) variable i s) = multinomial_tallies i"
  shows "agg_nsamples (infrs this') = agg_nsamples (infrs this)
       \<and> agg_means (infrs this') = agg_means (infrs this)
       \<and> multinomial_tallies (infrs this') = multinomial_tallies (infrs this)"
proof (cases "is_learned this vid")
  case False
  with assms(1) sample_sgd_single_variable_skipped [OF False] show ?thesis by simp
next
  case True
  from assms(1) [unfolded sample_sgd_single_variable_learned [OF True]] assms(2)
  show ?thesis
    by (auto simp: Let_def split: sum.splits prod.splits if_splits)
qed

lemma sgd_sweep_aggregates:
  assumes "for_each_vid (\<lambda>t v. sample_sgd_single_variable t v stepsize) vids this = Inr this'"
    and "\<forall>variable i s. agg_nsamples (update_weight (fg this) variable i s) = agg_nsamples i
           \<and> agg_means (update_weight (fg this) variable i s) = agg_means i
           \<and> multinomial_tallies (update_weight (fg this) variable i s) = multinomial_tallies i"
  shows "agg_nsamples (infrs this') = agg_nsamples (infrs this)
       \<and> agg_means (infrs this') = agg_means (infrs this)
       \<and> multinomial_tallies (infrs this') = multinomial_tallies (infrs this)"
  using assms
proof (induction vids arbitrary: this)
  case Nil
  then show ?case by simp
next
  case (Cons vid vids)
  from Cons.prems(1) obtain t where t: "sample_sgd_single_variable this vid stepsize = Inr t"
    and rest: "for_each_vid (\<lambda>t v. sample_sgd_single_variable t v stepsize) vids t = Inr this'"
    by (auto split: sum.splits)
  have f: "fg t = fg this"
    by (rule body_keeps_fg(2) [OF t])
  from Cons.IH [OF rest] Cons.prems(2) f sample_sgd_single_variable_aggregates [OF t Cons.prems(2)]
  show ?case
    by simp
qed

text \<open>
  C8. Where every variable sits at the index of its id, and the weight update leaves the
  three aggregate arrays alone: \<^verbatim>\<open>draw_sample\<close> changes no aggregate; a call of
  \<^verbatim>\<open>sample_single_variable\<close> raises the sample counter of its variable by 1 if it draws
  and by 0 if it skips, changes no other counter and lowers no mean accumulator or tally;
  a sampling sweep raises the counter of each variable of the shard that it draws by
  exactly 1 and no other counter, and lowers no mean accumulator or tally;
  \<^verbatim>\<open>sample_sgd_single_variable\<close> and an SGD sweep change no aggregate.
\<close>

theorem aggregates_only_grow:
  assumes ids: "\<forall>vid. id' (variables (fg this) vid) = vid"
    and upd: "\<forall>variable i s.
           agg_nsamples (update_weight (fg this) variable i s) = agg_nsamples i
           \<and> agg_means (update_weight (fg this) variable i s) = agg_means i
           \<and> multinomial_tallies (update_weight (fg this) variable i s) = multinomial_tallies i"
  shows "(\<forall>variable a w v this'. draw_sample this variable a w = Inr (v, this') \<longrightarrow>
            agg_nsamples (infrs this') = agg_nsamples (infrs this)
            \<and> agg_means (infrs this') = agg_means (infrs this)
            \<and> multinomial_tallies (infrs this') = multinomial_tallies (infrs this))
       \<and> (\<forall>vid this'. sample_single_variable this vid = Inr this' \<longrightarrow>
            (\<forall>k. agg_nsamples (infrs this') k =
                   agg_nsamples (infrs this) k + (if k = vid \<and> is_sampled this vid then 1 else 0))
            \<and> (\<forall>k. agg_means (infrs this) k \<le> agg_means (infrs this') k)
            \<and> (\<forall>j. multinomial_tallies (infrs this) j \<le> multinomial_tallies (infrs this') j))
       \<and> (\<forall>this'. sample this = Inr this' \<longrightarrow>
            (\<forall>k. agg_nsamples (infrs this') k =
                   agg_nsamples (infrs this) k
                     + (if start this \<le> k \<and> k < end_vid this \<and> is_sampled this k then 1 else 0))
            \<and> (\<forall>k. agg_means (infrs this) k \<le> agg_means (infrs this') k)
            \<and> (\<forall>j. multinomial_tallies (infrs this) j \<le> multinomial_tallies (infrs this') j))
       \<and> (\<forall>vid stepsize this'. sample_sgd_single_variable this vid stepsize = Inr this' \<longrightarrow>
            agg_nsamples (infrs this') = agg_nsamples (infrs this)
            \<and> agg_means (infrs this') = agg_means (infrs this)
            \<and> multinomial_tallies (infrs this') = multinomial_tallies (infrs this))
       \<and> (\<forall>stepsize this'. sample_sgd this stepsize = Inr this' \<longrightarrow>
            agg_nsamples (infrs this') = agg_nsamples (infrs this)
            \<and> agg_means (infrs this') = agg_means (infrs this)
            \<and> multinomial_tallies (infrs this') = multinomial_tallies (infrs this))"
proof (intro conjI allI impI)
  fix variable a w v this'
  assume "draw_sample this variable a w = Inr (v, this')"
  from draw_sample_keeps(1) [OF this]
  show "agg_nsamples (infrs this') = agg_nsamples (infrs this)"
    and "agg_means (infrs this') = agg_means (infrs this)"
    and "multinomial_tallies (infrs this') = multinomial_tallies (infrs this)"
    by simp_all
next
  fix vid this' k
  assume a: "sample_single_variable this vid = Inr this'"
  from sample_single_variable_aggregates(1) [OF a, of k] ids
  show "agg_nsamples (infrs this') k =
          agg_nsamples (infrs this) k + (if k = vid \<and> is_sampled this vid then 1 else 0)"
    by auto
  show "agg_means (infrs this) k \<le> agg_means (infrs this') k"
    by (rule sample_single_variable_aggregates(2) [OF a])
  show "multinomial_tallies (infrs this) k \<le> multinomial_tallies (infrs this') k"
    by (rule sample_single_variable_aggregates(3) [OF a])
next
  fix this' k
  assume "sample this = Inr this'"
  then have a: "for_each_vid sample_single_variable [start this..<end_vid this] this = Inr this'"
    by (simp add: sample_def)
  have "(\<lambda>vid. is_sampled this vid \<and> id' (variables (fg this) vid) = k)
      = (\<lambda>vid. is_sampled this vid \<and> vid = k)"
    using ids by simp
  with inference_sweep_aggregates [OF a, of k]
  show "agg_nsamples (infrs this') k =
          agg_nsamples (infrs this) k
            + (if start this \<le> k \<and> k < end_vid this \<and> is_sampled this k then 1 else 0)"
    by (simp add: count_in_range)
  from inference_sweep_aggregates [OF a, of k]
  show "agg_means (infrs this) k \<le> agg_means (infrs this') k"
    by simp
  from inference_sweep_aggregates [OF a, of _ k]
  show "multinomial_tallies (infrs this) k \<le> multinomial_tallies (infrs this') k"
    by simp
next
  fix vid stepsize this'
  assume "sample_sgd_single_variable this vid stepsize = Inr this'"
  from sample_sgd_single_variable_aggregates [OF this upd]
  show "agg_nsamples (infrs this') = agg_nsamples (infrs this)"
    and "agg_means (infrs this') = agg_means (infrs this)"
    and "multinomial_tallies (infrs this') = multinomial_tallies (infrs this)"
    by simp_all
next
  fix stepsize this'
  assume "sample_sgd this stepsize = Inr this'"
  then have "for_each_vid (\<lambda>t v. sample_sgd_single_variable t v stepsize)
               [start this..<end_vid this] this = Inr this'"
    by (simp add: sample_sgd_def)
  from sgd_sweep_aggregates [OF this upd]
  show "agg_nsamples (infrs this') = agg_nsamples (infrs this)"
    and "agg_means (infrs this') = agg_means (infrs this)"
    and "multinomial_tallies (infrs this') = multinomial_tallies (infrs this)"
    by simp_all
qed

section \<open>The frame of \<^verbatim>\<open>draw_sample\<close>\<close>

text \<open>
  C10. A call of \<^verbatim>\<open>draw_sample\<close> that returns leaves the worker as it was but for the seed,
  which \<^verbatim>\<open>erand48\<close> has advanced once, and the scratch buffer: the inference result
  (both assignment arrays, the weights and every aggregate array), the factor graph, the
  shard and the flags are those of the call's start.
\<close>

theorem draw_sample_only_seed_and_buffer:
  assumes "draw_sample this variable a w = Inr (v, this')"
  shows "this' = this\<lparr>p_rand_seed := snd (erand48 (p_rand_seed this)),
                      varlen_potential_buffer := varlen_potential_buffer this'\<rparr>
       \<and> infrs this' = infrs this \<and> fg this' = fg this
       \<and> start this' = start this \<and> end_vid this' = end_vid this
       \<and> sample_evidence this' = sample_evidence this
       \<and> learn_non_evidence this' = learn_non_evidence this"
  using draw_sample_frame [OF assms] draw_sample_keeps [OF assms] by simp

section \<open>Reseeded workers\<close>

lemma draw_samples_agree:
  assumes "p_rand_seed this2 = p_rand_seed this1" and "fg this2 = fg this1"
  shows "draw_samples this1 calls = draw_samples this2 calls"
  using assms
proof (induction calls arbitrary: this1 this2)
  case Nil
  show ?case by simp
next
  case (Cons c calls)
  obtain variable a w where c: "c = (variable, a, w)" by (cases c)
  note out = draw_sample_outcome [OF Cons.prems, of variable a w]
  show ?case
  proof (cases "draw_sample this1 variable a w")
    case (Inl e)
    with out have "draw_sample this2 variable a w = Inl e"
      by (cases "draw_sample this2 variable a w") auto
    with Inl c show ?thesis by simp
  next
    case (Inr r)
    obtain v t1 where r: "r = (v, t1)" by (cases r)
    from out Inr r obtain t2 where 2: "draw_sample this2 variable a w = Inr (v, t2)"
      and s: "p_rand_seed t2 = p_rand_seed t1"
      by (cases "draw_sample this2 variable a w") auto
    from draw_sample_keeps(2) [OF Inr [unfolded r]] draw_sample_keeps(2) [OF 2] Cons.prems
    have "fg t2 = fg t1" by simp
    from Cons.IH [OF s this] Inr r 2 c show ?thesis by simp
  qed
qed

text \<open>
  C9. Two workers on the same factor graph that are reseeded with the same triple return
  the same sequence of values from the same sequence of \<^verbatim>\<open>draw_sample\<close> calls (and stop
  at the same fatal condition), whatever their scratch buffers and their other members
  hold. Two workers that also agree in shard, inference result and flags end a sampling
  sweep and an SGD sweep in the same result, the scratch buffer apart.
\<close>

theorem reseeded_workers_draw_alike:
  "(fg this2 = fg this1 \<longrightarrow>
      draw_samples (set_random_seed this1 s0 s1 s2) calls
        = draw_samples (set_random_seed this2 s0 s1 s2) calls)
   \<and> (start this2 = start this1 \<and> end_vid this2 = end_vid this1 \<and> fg this2 = fg this1
        \<and> infrs this2 = infrs this1 \<and> sample_evidence this2 = sample_evidence this1
        \<and> learn_non_evidence this2 = learn_non_evidence this1 \<longrightarrow>
      rel_sum (=) up_to_buffer
        (sample (set_random_seed this1 s0 s1 s2)) (sample (set_random_seed this2 s0 s1 s2))
      \<and> rel_sum (=) up_to_buffer
        (sample_sgd (set_random_seed this1 s0 s1 s2) stepsize)
        (sample_sgd (set_random_seed this2 s0 s1 s2) stepsize))"
proof (intro conjI impI)
  assume "fg this2 = fg this1"
  then show "draw_samples (set_random_seed this1 s0 s1 s2) calls
        = draw_samples (set_random_seed this2 s0 s1 s2) calls"
    by (intro draw_samples_agree) (simp_all add: set_random_seed_def)
next
  assume a: "start this2 = start this1 \<and> end_vid this2 = end_vid this1 \<and> fg this2 = fg this1
        \<and> infrs this2 = infrs this1 \<and> sample_evidence this2 = sample_evidence this1
        \<and> learn_non_evidence this2 = learn_non_evidence this1"
  then have u: "up_to_buffer (set_random_seed this1 s0 s1 s2) (set_random_seed this2 s0 s1 s2)"
    by (simp add: up_to_buffer_iff set_random_seed_def)
  from a have r: "[start (set_random_seed this2 s0 s1 s2)..<end_vid (set_random_seed this2 s0 s1 s2)]
      = [start (set_random_seed this1 s0 s1 s2)..<end_vid (set_random_seed this1 s0 s1 s2)]"
    by (simp add: set_random_seed_def)
  show "rel_sum (=) up_to_buffer
        (sample (set_random_seed this1 s0 s1 s2)) (sample (set_random_seed this2 s0 s1 s2))"
    unfolding sample_def r
    by (rule for_each_vid_up_to_buffer [OF sample_single_variable_up_to_buffer u])
  show "rel_sum (=) up_to_buffer
        (sample_sgd (set_random_seed this1 s0 s1 s2) stepsize)
        (sample_sgd (set_random_seed this2 s0 s1 s2) stepsize)"
    unfolding sample_sgd_def r
    by (rule for_each_vid_up_to_buffer [OF sample_sgd_single_variable_up_to_buffer u])
qed

section \<open>Sweeps over boolean variables return\<close>

lemma sample_single_variable_boolean_returns:
  assumes "domain_type (variables (fg this) vid) = DTYPE_BOOLEAN"
  shows "\<exists>this'. sample_single_variable this vid = Inr this'"
proof (cases "is_sampled this vid")
  case False
  then show ?thesis by (simp add: sample_single_variable_skipped)
next
  case True
  from sample_single_variable_sampled [OF True draw_sample_boolean [OF assms]] assms
  show ?thesis by (simp add: Let_def)
qed

lemma sample_sgd_single_variable_boolean_returns:
  assumes "domain_type (variables (fg this) vid) = DTYPE_BOOLEAN"
  shows "\<exists>this'. sample_sgd_single_variable this vid stepsize = Inr this'"
proof (cases "is_learned this vid")
  case False
  then show ?thesis by (simp add: sample_sgd_single_variable_skipped)
next
  case True
  show ?thesis
    by (simp add: sample_sgd_single_variable_learned [OF True] draw_sample_boolean [OF assms]
        Let_def)
qed

lemma for_each_vid_returns:
  fixes body :: "GibbsSamplerThread \<Rightarrow> VariableIndex \<Rightarrow> fatal + GibbsSamplerThread"
  assumes keeps: "\<And>t v t'. body t v = Inr t' \<Longrightarrow> fg t' = fg t"
    and returns: "\<And>t v. v \<in> set vids \<Longrightarrow> fg t = fg this \<Longrightarrow> \<exists>t'. body t v = Inr t'"
  shows "\<exists>this'. for_each_vid body vids this = Inr this'"
  using returns
proof (induction vids arbitrary: this)
  case Nil
  show ?case by simp
next
  case (Cons vid vids)
  from Cons.prems [of vid this] obtain t where t: "body this vid = Inr t"
    by auto
  from keeps [OF t] have f: "fg t = fg this" .
  have "\<exists>this'. for_each_vid body vids t = Inr this'"
  proof (rule Cons.IH)
    fix t' :: GibbsSamplerThread and v
    assume "v \<in> set vids" and "fg t' = fg t"
    with f Cons.prems [of v t'] show "\<exists>t''. body t' v = Inr t''"
      by simp
  qed
  with t show ?case by simp
qed

section \<open>The small factor graph, evaluated\<close>

lemma example_variable_sel:
  "id' (example_variable vid) = vid"
  "domain_type (example_variable vid) = (if vid = 3 then DTYPE_MULTINOMIAL else DTYPE_BOOLEAN)"
  "is_evid (example_variable vid) = (vid = 1)"
  "is_observation (example_variable vid) = (vid = 2)"
  "cardinality (example_variable vid) = 2"
  "assignment_evid (example_variable vid) = (if vid = 1 then 1 else 0)"
  "n_start_i_tally (example_variable vid) = 0"
  "domain_map (example_variable vid) = None"
  "get_domain_index (example_variable vid) = (\<lambda>v. v)"
  "INVALID_VALUE (example_variable vid) = 18446744073709551615"
  by (simp_all add: example_variable_def)

lemma example_graph_sel:
  "variables example_graph = example_variable"
  "potential example_graph variable v a wv = wv v"
  "update_weight example_graph variable i stepsize =
     i\<lparr>weight_values := (weight_values i)(id' variable :=
          weight_values i (id' variable)
            + stepsize * (real (assignments_evid i (id' variable))
                          - real (assignments_free i (id' variable))))\<rparr>"
  by (simp_all add: example_graph_def)

lemma example_worker_sel:
  "start (example_worker seed wv) = 0"
  "end_vid (example_worker seed wv) = 3"
  "p_rand_seed (example_worker seed wv) = seed"
  "varlen_potential_buffer (example_worker seed wv) =
     \<lparr>elems = (\<lambda>i. 0), vsize = 0, vcapacity = 0\<rparr>"
  "fg (example_worker seed wv) = example_graph"
  "infrs (example_worker seed wv) =
     \<lparr>assignments_evid = (\<lambda>vid. 0), assignments_free = (\<lambda>vid. 0), weight_values = wv,
      agg_nsamples = (\<lambda>vid. 0), agg_means = (\<lambda>vid. 0), multinomial_tallies = (\<lambda>i. 0)\<rparr>"
  "sample_evidence (example_worker seed wv) = False"
  "learn_non_evidence (example_worker seed wv) = True"
  by (simp_all add: example_worker_def)

lemma erand48_example:
  "erand48 (0, 0, 0) = (11 / 2 ^ 48, (11, 0, 0))"
  "erand48 (11, 0, 0) = (277363943098 / 2 ^ 48, (59066, 37933, 64))"
  "erand48 (59066, 37933, 64) = (11718085204285 / 2 ^ 48, (22845, 21582, 2728))"
  "erand48 (10921, 3654, 8540) = (3 / 4, (0, 0, 49152))"
  by (simp_all add: erand48_def Let_def)

lemma each_domain_value_example:
  "each_domain_value (example_variable vid) = [(0, 0), (Suc 0, Suc 0)]"
  by (simp add: each_domain_value_def example_variable_sel upt_rec)

lemma compute_potentials_example:
  "compute_potentials pot [(0, 0), (Suc 0, Suc 0)] buf s =
     (buf\<lparr>elems := (elems buf)(0 := pot 0, Suc 0 := pot (Suc 0))\<rparr>,
      logadd (logadd s (pot 0)) (pot (Suc 0)))"
  by (simp add: Let_def vstore_def vload_def)

text \<open>Potentials \<open>- 100000\<close> and the draw \<open>r = 3/4\<close>: both values have probability 1/3.\<close>

lemma loop_exhausted_example:
  "loop_exhausted (buf\<lparr>elems := (elems buf)(0 := - 100000, Suc 0 := - 100000)\<rparr>)
     (logadd (logadd (- 100000) (- 100000)) (- 100000)) [(0, 0), (Suc 0, Suc 0)] (3 / 4)"
  by (simp add: Let_def vload_def exp_diff_logadd exp_logadd)

lemma draw_sample_example_exhausted:
  "draw_sample (example_worker (10921, 3654, 8540) (\<lambda>i. - 100000)) (example_variable 3)
     (\<lambda>vid. 0) (\<lambda>i. - 100000) = Inl AssertionFailure"
  by (simp add: draw_sample_multinomial example_variable_sel example_worker_sel example_graph_sel
      each_domain_value_example compute_potentials_example erand48_example
      loop_exhausted_select_proposal [OF loop_exhausted_example]
      del: compute_potentials.simps select_proposal.simps)

text \<open>Potentials 0 and the draw \<open>r = 11 / 2^48\<close>: the first value is selected.\<close>

lemma select_proposal_example:
  assumes "elems buf 0 = 0" and "r \<le> 1 / 3"
  shows "select_proposal buf (logadd (logadd (- 100000) 0) 0) ((0, 0) # rest) r p = 0"
proof -
  have "exp (- 100000 :: real) \<le> 1"
    by simp
  then have "1 / 3 \<le> 1 / (exp (- 100000 :: real) + 1 + 1)"
    by (intro divide_left_mono) (simp_all add: add_pos_pos)
  with assms show ?thesis
    by (simp add: Let_def vload_def exp_minus_logadd exp_logadd)
qed

lemma draw_sample_example_multinomial:
  "draw_sample (example_worker (0, 0, 0) (\<lambda>i. 0)) (example_variable 3) (\<lambda>vid. 0) (\<lambda>i. 0) =
     Inr (0, (example_worker (0, 0, 0) (\<lambda>i. 0))\<lparr>p_rand_seed := (11, 0, 0),
            varlen_potential_buffer :=
              \<lparr>elems = (\<lambda>i. 0)(0 := 0, Suc 0 := 0), vsize = 0, vcapacity = 2\<rparr>\<rparr>)"
  by (simp add: draw_sample_multinomial example_variable_sel example_worker_sel example_graph_sel
      each_domain_value_example compute_potentials_example erand48_example
      select_proposal_example reserve_def Let_def
      del: compute_potentials.simps select_proposal.simps)

lemma draw_sample_example_multinomial_at:
  assumes "fg this = example_graph" and "fst (erand48 (p_rand_seed this)) \<le> 1 / 3"
  shows "draw_sample this (example_variable 3) a (\<lambda>i. 0) =
     Inr (0, this\<lparr>p_rand_seed := snd (erand48 (p_rand_seed this)),
            varlen_potential_buffer :=
              (reserve 2 (varlen_potential_buffer this))\<lparr>elems :=
                 (elems (reserve 2 (varlen_potential_buffer this)))(0 := 0, Suc 0 := 0)\<rparr>\<rparr>)"
  using assms
  by (simp add: draw_sample_multinomial example_variable_sel example_graph_sel
      each_domain_value_example compute_potentials_example
      select_proposal_example Let_def
      del: compute_potentials.simps select_proposal.simps)

lemma is_sampled_example:
  "is_sampled (example_worker seed wv) vid \<longleftrightarrow> vid \<noteq> 1 \<and> vid \<noteq> 2"
  by (auto simp: is_sampled_def example_worker_sel example_graph_sel example_variable_sel)

lemma is_learned_example:
  "is_learned (example_worker seed wv) vid \<longleftrightarrow> vid \<noteq> 2"
  by (auto simp: is_learned_def example_worker_sel example_graph_sel example_variable_sel)

lemma draw_sample_example_boolean:
  assumes "vid \<noteq> 3" and "fg this = example_graph" and "fst (erand48 (p_rand_seed this)) < 1 / 2"
  shows "draw_sample this (example_variable vid) a (\<lambda>i. 0) =
           Inr (1, this\<lparr>p_rand_seed := snd (erand48 (p_rand_seed this))\<rparr>)"
  using assms
  by (simp add: draw_sample_boolean example_variable_sel example_graph_sel flip_coin_def)

lemma sample_example_returns:
  "\<exists>this'. sample (example_worker seed wv) = Inr this'"
  unfolding sample_def
proof (rule for_each_vid_returns)
  show "fg t' = fg t" if "sample_single_variable t v = Inr t'" for t v t'
    using that by (rule body_keeps_fg(1))
  show "\<exists>t'. sample_single_variable t v = Inr t'"
    if "v \<in> set [start (example_worker seed wv)..<end_vid (example_worker seed wv)]"
      and "fg t = fg (example_worker seed wv)" for t v
    using that
    by (intro sample_single_variable_boolean_returns)
      (simp add: example_worker_sel example_graph_sel example_variable_sel)
qed

lemma sample_sgd_example_returns:
  "\<exists>this'. sample_sgd (example_worker seed wv) stepsize = Inr this'"
  unfolding sample_sgd_def
proof (rule for_each_vid_returns)
  show "fg t' = fg t" if "sample_sgd_single_variable t v stepsize = Inr t'" for t v t'
    using that by (rule body_keeps_fg(2))
  show "\<exists>t'. sample_sgd_single_variable t v stepsize = Inr t'"
    if "v \<in> set [start (example_worker seed wv)..<end_vid (example_worker seed wv)]"
      and "fg t = fg (example_worker seed wv)" for t v
    using that
    by (intro sample_sgd_single_variable_boolean_returns)
      (simp add: example_worker_sel example_graph_sel example_variable_sel)
qed

lemma sample_single_variable_example_0:
  "sample_single_variable (example_worker (0, 0, 0) (\<lambda>i. 0)) 0 =
     Inr ((example_worker (0, 0, 0) (\<lambda>i. 0))\<lparr>p_rand_seed := (11, 0, 0),
            infrs := (infrs (example_worker (0, 0, 0) (\<lambda>i. 0)))\<lparr>
              assignments_evid := (\<lambda>vid. 0)(0 := 1),
              agg_nsamples := (\<lambda>vid. 0)(0 := 1),
              agg_means := (\<lambda>vid. 0)(0 := 1)\<rparr>\<rparr>)"
proof -
  have d: "draw_sample (example_worker (0, 0, 0) (\<lambda>i. 0))
             (variables (fg (example_worker (0, 0, 0) (\<lambda>i. 0))) 0)
             (assignments_evid (infrs (example_worker (0, 0, 0) (\<lambda>i. 0))))
             (weight_values (infrs (example_worker (0, 0, 0) (\<lambda>i. 0)))) =
           Inr (1, (example_worker (0, 0, 0) (\<lambda>i. 0))\<lparr>p_rand_seed := (11, 0, 0)\<rparr>)"
    by (simp add: example_worker_sel example_graph_sel draw_sample_example_boolean
        erand48_example)
  show ?thesis
    by (simp add: sample_single_variable_sampled [OF _ d] is_sampled_example Let_def
        example_worker_sel example_graph_sel example_variable_sel)
qed

theorem inference_write_iff_witness:
  "\<not> is_observation (variables (fg (example_worker (0, 0, 0) (\<lambda>i. 0))) 0)
   \<and> (\<exists>this'. sample_single_variable (example_worker (0, 0, 0) (\<lambda>i. 0)) 0 = Inr this'
         \<and> assignments_evid (infrs this') = (\<lambda>vid. 0)(0 := 1)
         \<and> agg_nsamples (infrs this') = (\<lambda>vid. 0)(0 := 1)
         \<and> agg_means (infrs this') = (\<lambda>vid. 0)(0 := 1))
   \<and> \<not> is_observation (variables (fg (example_worker (0, 0, 0) (\<lambda>i. 0))) 1)
   \<and> sample_single_variable (example_worker (0, 0, 0) (\<lambda>i. 0)) 1
       = Inr (example_worker (0, 0, 0) (\<lambda>i. 0))"
  using inference_write_iff [of "example_worker (0, 0, 0) (\<lambda>i. 0)" 0, OF _ sample_single_variable_example_0]
    inference_write_iff [of "example_worker (0, 0, 0) (\<lambda>i. 0)" 1 "example_worker (0, 0, 0) (\<lambda>i. 0)"]
  by (simp add: sample_single_variable_example_0 sample_single_variable_skipped
      is_sampled_example example_worker_sel example_graph_sel example_variable_sel)

text \<open>
  C2. The dense multinomial variable of cardinality 2 with both potentials \<open>- 100000\<close>:
  the seed \<open>- 100000\<close> of \<open>sum\<close> weighs as much as each value, so each value has the
  normalised probability 1/3, and on the draw \<open>r = 3/4\<close> (the seed triple
  \<open>(10921, 3654, 8540)\<close>) the loop runs through the whole domain without a selection. The
  assertion \<open>proposal != Variable::INVALID_VALUE\<close> fails.
\<close>

theorem multinomial_loop_exhausts_domain:
  "fst (erand48 (10921, 3654, 8540)) = 3 / 4
   \<and> each_domain_value (example_variable 3) = [(0, 0), (1, 1)]
   \<and> potential example_graph (example_variable 3) 0 (\<lambda>vid. 0) (\<lambda>i. - 100000) = - 100000
   \<and> potential example_graph (example_variable 3) 1 (\<lambda>vid. 0) (\<lambda>i. - 100000) = - 100000
   \<and> draw_sample (example_worker (10921, 3654, 8540) (\<lambda>i. - 100000)) (example_variable 3)
        (\<lambda>vid. 0) (\<lambda>i. - 100000) = Inl AssertionFailure"
  by (simp add: erand48_example each_domain_value_example draw_sample_example_exhausted
      example_graph_sel)

lemma select_proposal_example_4:
  assumes "elems buf 0 = 0" and "elems buf (Suc 0) = - 1" and "r \<le> 1 / 3"
  shows "select_proposal buf (logadd (logadd (- 100000) 0) (- 1)) ((0, 0) # rest) r p = 0"
proof -
  have "exp (- 100000 :: real) \<le> 1" and "exp (- 1 :: real) \<le> 1"
    by simp_all
  then have "exp (- 100000 :: real) + 1 + exp (- 1) \<le> 3"
    by linarith
  then have "1 / 3 \<le> 1 / (exp (- 100000 :: real) + 1 + exp (- 1))"
    by (intro divide_left_mono) (simp_all add: add_pos_pos)
  with assms show ?thesis
    by (simp add: Let_def vload_def exp_minus_logadd exp_logadd)
qed

text \<open>
  C4. A worker whose scratch vector is empty draws the dense multinomial variable of
  cardinality 2: \<^verbatim>\<open>reserve\<close> raises the capacity to 2, the element count stays 0, and the
  two potentials are stored at the indices 0 and 1, both outside the element count
  (no call of \<^verbatim>\<open>draw_sample\<close> changes the element count: \<open>draw_sample_vsize\<close>).
\<close>

theorem scratch_buffer_written_beyond_size:
  "varlen_potential_buffer (example_worker (0, 0, 0) (\<lambda>i. - real i))
     = \<lparr>elems = (\<lambda>i. 0), vsize = 0, vcapacity = 0\<rparr>
   \<and> cardinality (example_variable 3) = 2
   \<and> draw_sample (example_worker (0, 0, 0) (\<lambda>i. - real i)) (example_variable 3)
        (\<lambda>vid. 0) (\<lambda>i. - real i) =
      Inr (0, (example_worker (0, 0, 0) (\<lambda>i. - real i))\<lparr>p_rand_seed := (11, 0, 0),
             varlen_potential_buffer :=
               \<lparr>elems = (\<lambda>i. 0)(0 := 0, 1 := - 1), vsize = 0, vcapacity = 2\<rparr>\<rparr>)"
  by (simp add: draw_sample_multinomial example_variable_sel example_worker_sel example_graph_sel
      each_domain_value_example compute_potentials_example erand48_example
      select_proposal_example_4 reserve_def Let_def
      del: compute_potentials.simps select_proposal.simps)

theorem draw_sample_only_seed_and_buffer_witness:
  "draw_sample (example_worker (0, 0, 0) (\<lambda>i. 0)) (example_variable 3) (\<lambda>vid. 0) (\<lambda>i. 0) =
     Inr (0, (example_worker (0, 0, 0) (\<lambda>i. 0))\<lparr>p_rand_seed := (11, 0, 0),
            varlen_potential_buffer :=
              \<lparr>elems = (\<lambda>i. 0)(0 := 0, Suc 0 := 0), vsize = 0, vcapacity = 2\<rparr>\<rparr>)
   \<and> infrs ((example_worker (0, 0, 0) (\<lambda>i. 0))\<lparr>p_rand_seed := (11, 0, 0),
            varlen_potential_buffer :=
              \<lparr>elems = (\<lambda>i. 0)(0 := 0, Suc 0 := 0), vsize = 0, vcapacity = 2\<rparr>\<rparr>)
       = infrs (example_worker (0, 0, 0) (\<lambda>i. 0))
   \<and> snd (erand48 (p_rand_seed (example_worker (0, 0, 0) (\<lambda>i. 0)))) = (11, 0, 0)"
  using draw_sample_only_seed_and_buffer [OF draw_sample_example_multinomial]
  by (simp add: draw_sample_example_multinomial example_worker_sel erand48_example)

lemma sample_sgd_single_variable_example_1:
  "sample_sgd_single_variable (example_worker (0, 0, 0) (\<lambda>i. 0)) 1 (1 / 10) =
     Inr ((example_worker (0, 0, 0) (\<lambda>i. 0))\<lparr>p_rand_seed := (11, 0, 0),
            infrs := (infrs (example_worker (0, 0, 0) (\<lambda>i. 0)))\<lparr>
              assignments_evid := (\<lambda>vid. 0)(1 := 1),
              assignments_free := (\<lambda>vid. 0)(1 := 1),
              weight_values := (\<lambda>i. 0)(1 := 0)\<rparr>\<rparr>)"
  by (simp add: sample_sgd_single_variable_learned is_learned_example Let_def
      example_worker_sel example_graph_sel example_variable_sel
      draw_sample_example_boolean erand48_example)

lemma sample_sgd_single_variable_example_0:
  "sample_sgd_single_variable (example_worker (0, 0, 0) (\<lambda>i. 0)) 0 (1 / 10) =
     Inr ((example_worker (0, 0, 0) (\<lambda>i. 0))\<lparr>p_rand_seed := (59066, 37933, 64),
            infrs := (infrs (example_worker (0, 0, 0) (\<lambda>i. 0)))\<lparr>
              assignments_evid := (\<lambda>vid. 0)(0 := 1),
              assignments_free := (\<lambda>vid. 0)(0 := 1),
              weight_values := (\<lambda>i. 0)(0 := 0)\<rparr>\<rparr>)"
  by (simp add: sample_sgd_single_variable_learned is_learned_example Let_def
      example_worker_sel example_graph_sel example_variable_sel
      draw_sample_example_boolean erand48_example)

theorem sgd_evidence_pass_witness:
  "is_learned (example_worker (0, 0, 0) (\<lambda>i. 0)) 1
   \<and> is_evid (variables (fg (example_worker (0, 0, 0) (\<lambda>i. 0))) 1)
   \<and> assignment_evid (variables (fg (example_worker (0, 0, 0) (\<lambda>i. 0))) 1) = 1
   \<and> (\<exists>this'. sample_sgd_single_variable (example_worker (0, 0, 0) (\<lambda>i. 0)) 1 (1 / 10) = Inr this'
         \<and> assignments_evid (infrs this') 1 = 1
         \<and> p_rand_seed this' = snd (erand48 (0, 0, 0)))
   \<and> is_learned (example_worker (0, 0, 0) (\<lambda>i. 0)) 0
   \<and> (\<exists>this'. sample_sgd_single_variable (example_worker (0, 0, 0) (\<lambda>i. 0)) 0 (1 / 10) = Inr this'
         \<and> assignments_evid (infrs this') 0 = 1
         \<and> p_rand_seed this' = snd (erand48 (snd (erand48 (0, 0, 0)))))"
proof -
  note used = sgd_evidence_pass [OF _ sample_sgd_single_variable_example_1]
  have 1: "is_learned (example_worker (0, 0, 0) (\<lambda>i. 0)) 1"
    and 2: "is_evid (variables (fg (example_worker (0, 0, 0) (\<lambda>i. 0))) 1)"
    and 3: "assignment_evid (variables (fg (example_worker (0, 0, 0) (\<lambda>i. 0))) 1) = 1"
    and 4: "is_learned (example_worker (0, 0, 0) (\<lambda>i. 0)) 0"
    by (simp_all add: is_learned_example example_worker_sel example_graph_sel
        example_variable_sel)
  have 5: "\<exists>this'. sample_sgd_single_variable (example_worker (0, 0, 0) (\<lambda>i. 0)) 1 (1 / 10) = Inr this'
         \<and> assignments_evid (infrs this') 1 = 1
         \<and> p_rand_seed this' = snd (erand48 (0, 0, 0))"
    by (intro exI conjI, rule sample_sgd_single_variable_example_1)
      (simp_all add: erand48_example)
  have 6: "\<exists>this'. sample_sgd_single_variable (example_worker (0, 0, 0) (\<lambda>i. 0)) 0 (1 / 10) = Inr this'
         \<and> assignments_evid (infrs this') 0 = 1
         \<and> p_rand_seed this' = snd (erand48 (snd (erand48 (0, 0, 0))))"
    by (intro exI conjI, rule sample_sgd_single_variable_example_0)
      (simp_all add: erand48_example)
  from used 1 2 3 4 5 6 show ?thesis
    by (intro conjI) assumption+
qed

lemma sample_single_variable_example_3:
  "\<exists>this'. sample_single_variable (example_worker (0, 0, 0) (\<lambda>i. 0)) 3 = Inr this'"
  by (simp add: sample_single_variable_sampled is_sampled_example Let_def
      example_worker_sel example_graph_sel example_variable_sel
      draw_sample_example_multinomial_at erand48_example)

lemma sample_sgd_single_variable_example_3:
  "\<exists>this'. sample_sgd_single_variable (example_worker (0, 0, 0) (\<lambda>i. 0)) 3 (1 / 10) = Inr this'"
  by (simp add: sample_sgd_single_variable_learned is_learned_example Let_def
      example_worker_sel example_graph_sel example_variable_sel
      draw_sample_example_multinomial_at erand48_example)

theorem exhausted_loop_halts_witness:
  "domain_type (example_variable 3) = DTYPE_MULTINOMIAL
   \<and> compute_potentials
        (\<lambda>v. potential (fg (example_worker (10921, 3654, 8540) (\<lambda>i. - 100000)))
                (example_variable 3) v (\<lambda>vid. 0) (\<lambda>i. - 100000))
        (each_domain_value (example_variable 3))
        (reserve (cardinality (example_variable 3))
           (varlen_potential_buffer (example_worker (10921, 3654, 8540) (\<lambda>i. - 100000))))
        (- 100000)
       = (\<lparr>elems = (\<lambda>i. 0)(0 := - 100000, 1 := - 100000), vsize = 0, vcapacity = 2\<rparr>,
          logadd (logadd (- 100000) (- 100000)) (- 100000))
   \<and> loop_exhausted
        \<lparr>elems = (\<lambda>i. 0)(0 := - 100000, 1 := - 100000), vsize = 0, vcapacity = 2\<rparr>
        (logadd (logadd (- 100000) (- 100000)) (- 100000))
        (each_domain_value (example_variable 3))
        (fst (erand48 (p_rand_seed (example_worker (10921, 3654, 8540) (\<lambda>i. - 100000)))))
   \<and> draw_sample (example_worker (10921, 3654, 8540) (\<lambda>i. - 100000)) (example_variable 3)
        (\<lambda>vid. 0) (\<lambda>i. - 100000) = Inl AssertionFailure
   \<and> variables (fg (example_worker (0, 0, 0) (\<lambda>i. 0))) 3 = example_variable 3
   \<and> is_sampled (example_worker (0, 0, 0) (\<lambda>i. 0)) 3
   \<and> (\<exists>this'. sample_single_variable (example_worker (0, 0, 0) (\<lambda>i. 0)) 3 = Inr this'
         \<and> assignments_evid (infrs this') (id' (example_variable 3))
             \<noteq> INVALID_VALUE (example_variable 3))
   \<and> is_learned (example_worker (0, 0, 0) (\<lambda>i. 0)) 3
   \<and> (\<exists>this'. sample_sgd_single_variable (example_worker (0, 0, 0) (\<lambda>i. 0)) 3 (1 / 10) = Inr this'
         \<and> (\<exists>i. infrs this' =
                  update_weight (fg (example_worker (0, 0, 0) (\<lambda>i. 0))) (example_variable 3) i (1 / 10)
                \<and> assignments_free i (id' (example_variable 3))
                    \<noteq> INVALID_VALUE (example_variable 3)))"
proof -
  let ?bad = "example_worker (10921, 3654, 8540) (\<lambda>i. - 100000)"
  let ?ok = "example_worker (0, 0, 0) (\<lambda>i. 0)"
  have 1: "domain_type (example_variable 3) = DTYPE_MULTINOMIAL"
    by (simp add: example_variable_sel)
  have 2: "compute_potentials
        (\<lambda>v. potential (fg ?bad) (example_variable 3) v (\<lambda>vid. 0) (\<lambda>i. - 100000))
        (each_domain_value (example_variable 3))
        (reserve (cardinality (example_variable 3)) (varlen_potential_buffer ?bad))
        (- 100000)
       = (\<lparr>elems = (\<lambda>i. 0)(0 := - 100000, 1 := - 100000), vsize = 0, vcapacity = 2\<rparr>,
          logadd (logadd (- 100000) (- 100000)) (- 100000))"
    by (simp add: each_domain_value_example compute_potentials_example example_worker_sel
        example_graph_sel example_variable_sel reserve_def
        del: compute_potentials.simps)
  have 3: "loop_exhausted
        \<lparr>elems = (\<lambda>i. 0)(0 := - 100000, 1 := - 100000), vsize = 0, vcapacity = 2\<rparr>
        (logadd (logadd (- 100000) (- 100000)) (- 100000))
        (each_domain_value (example_variable 3))
        (fst (erand48 (p_rand_seed ?bad)))"
    using loop_exhausted_example [of "\<lparr>elems = (\<lambda>i. 0), vsize = 0, vcapacity = 2\<rparr>"]
    by (simp add: each_domain_value_example example_worker_sel erand48_example
        del: loop_exhausted.simps)
  note used = exhausted_loop_halts [OF 1]
  from used [of ?bad "\<lambda>vid. 0" "\<lambda>i. - 100000"] 2 3
  have 4: "draw_sample ?bad (example_variable 3) (\<lambda>vid. 0) (\<lambda>i. - 100000) = Inl AssertionFailure"
    by blast
  have 5: "variables (fg ?ok) 3 = example_variable 3"
    and 6: "is_sampled ?ok 3" and 7: "is_learned ?ok 3"
    by (simp_all add: is_sampled_example is_learned_example example_worker_sel example_graph_sel)
  from sample_single_variable_example_3 obtain t where t: "sample_single_variable ?ok 3 = Inr t"
    by blast
  from used [of ?ok] 5 6 t
  have "assignments_evid (infrs t) (id' (example_variable 3)) \<noteq> INVALID_VALUE (example_variable 3)"
    by blast
  with t have 8: "\<exists>this'. sample_single_variable ?ok 3 = Inr this'
         \<and> assignments_evid (infrs this') (id' (example_variable 3))
             \<noteq> INVALID_VALUE (example_variable 3)"
    by blast
  from sample_sgd_single_variable_example_3
  obtain u where u: "sample_sgd_single_variable ?ok 3 (1 / 10) = Inr u"
    by blast
  from used [of ?ok] 5 7 u
  have "\<exists>i. infrs u = update_weight (fg ?ok) (example_variable 3) i (1 / 10)
                \<and> assignments_free i (id' (example_variable 3))
                    \<noteq> INVALID_VALUE (example_variable 3)"
    by blast
  with u have 9: "\<exists>this'. sample_sgd_single_variable ?ok 3 (1 / 10) = Inr this'
         \<and> (\<exists>i. infrs this' = update_weight (fg ?ok) (example_variable 3) i (1 / 10)
                \<and> assignments_free i (id' (example_variable 3))
                    \<noteq> INVALID_VALUE (example_variable 3))"
    by blast
  from 1 2 3 4 5 6 7 8 9 show ?thesis
    by (intro conjI) assumption+
qed

theorem aggregates_only_grow_witness:
  "(\<forall>vid. id' (variables (fg (example_worker (0, 0, 0) (\<lambda>i. 0))) vid) = vid)
   \<and> (\<forall>variable i s.
         agg_nsamples (update_weight (fg (example_worker (0, 0, 0) (\<lambda>i. 0))) variable i s)
           = agg_nsamples i
         \<and> agg_means (update_weight (fg (example_worker (0, 0, 0) (\<lambda>i. 0))) variable i s)
           = agg_means i
         \<and> multinomial_tallies (update_weight (fg (example_worker (0, 0, 0) (\<lambda>i. 0))) variable i s)
           = multinomial_tallies i)
   \<and> (\<exists>v this'. draw_sample (example_worker (0, 0, 0) (\<lambda>i. 0)) (example_variable 3)
                    (\<lambda>vid. 0) (\<lambda>i. 0) = Inr (v, this')
         \<and> agg_nsamples (infrs this') = (\<lambda>vid. 0))
   \<and> (\<exists>this'. sample_single_variable (example_worker (0, 0, 0) (\<lambda>i. 0)) 0 = Inr this'
         \<and> agg_nsamples (infrs this') 0 = 1 \<and> agg_nsamples (infrs this') 1 = 0)
   \<and> (\<exists>this'. sample (example_worker (0, 0, 0) (\<lambda>i. 0)) = Inr this'
         \<and> agg_nsamples (infrs this') 0 = 1 \<and> agg_nsamples (infrs this') 1 = 0
         \<and> agg_nsamples (infrs this') 2 = 0 \<and> agg_nsamples (infrs this') 3 = 0)
   \<and> (\<exists>this'. sample_sgd_single_variable (example_worker (0, 0, 0) (\<lambda>i. 0)) 0 (1 / 10) = Inr this'
         \<and> agg_nsamples (infrs this') = (\<lambda>vid. 0))
   \<and> (\<exists>this'. sample_sgd (example_worker (0, 0, 0) (\<lambda>i. 0)) (1 / 10) = Inr this'
         \<and> agg_nsamples (infrs this') = (\<lambda>vid. 0) \<and> agg_means (infrs this') = (\<lambda>vid. 0)
         \<and> multinomial_tallies (infrs this') = (\<lambda>i. 0))"
proof -
  let ?ok = "example_worker (0, 0, 0) (\<lambda>i. 0)"
  have 1: "\<forall>vid. id' (variables (fg ?ok) vid) = vid"
    by (simp add: example_worker_sel example_graph_sel example_variable_sel)
  have 2: "\<forall>variable i s.
         agg_nsamples (update_weight (fg ?ok) variable i s) = agg_nsamples i
         \<and> agg_means (update_weight (fg ?ok) variable i s) = agg_means i
         \<and> multinomial_tallies (update_weight (fg ?ok) variable i s) = multinomial_tallies i"
    by (simp add: example_worker_sel example_graph_sel)
  note used = aggregates_only_grow [OF 1 2]
  have s: "is_sampled ?ok 0" "\<not> is_sampled ?ok 1" "\<not> is_sampled ?ok 2" "start ?ok = 0"
    "end_vid ?ok = 3"
    and z: "agg_nsamples (infrs ?ok) = (\<lambda>vid. 0)" "agg_means (infrs ?ok) = (\<lambda>vid. 0)"
      "multinomial_tallies (infrs ?ok) = (\<lambda>i. 0)"
    by (simp_all add: is_sampled_example example_worker_sel)
  from used draw_sample_example_multinomial z
  have 3: "\<exists>v this'. draw_sample ?ok (example_variable 3) (\<lambda>vid. 0) (\<lambda>i. 0) = Inr (v, this')
         \<and> agg_nsamples (infrs this') = (\<lambda>vid. 0)"
    by metis
  from sample_single_variable_example_0 obtain a where a: "sample_single_variable ?ok 0 = Inr a"
    by blast
  from used a have "\<forall>k. agg_nsamples (infrs a) k =
      agg_nsamples (infrs ?ok) k + (if k = 0 \<and> is_sampled ?ok 0 then 1 else 0)"
    by blast
  with s z have "agg_nsamples (infrs a) 0 = 1 \<and> agg_nsamples (infrs a) 1 = 0"
    by simp
  with a have 4: "\<exists>this'. sample_single_variable ?ok 0 = Inr this'
         \<and> agg_nsamples (infrs this') 0 = 1 \<and> agg_nsamples (infrs this') 1 = 0"
    by blast
  from sample_example_returns obtain b where b: "sample ?ok = Inr b"
    by blast
  from used b have "\<forall>k. agg_nsamples (infrs b) k =
      agg_nsamples (infrs ?ok) k
        + (if start ?ok \<le> k \<and> k < end_vid ?ok \<and> is_sampled ?ok k then 1 else 0)"
    by blast
  with s z have "agg_nsamples (infrs b) 0 = 1 \<and> agg_nsamples (infrs b) 1 = 0
         \<and> agg_nsamples (infrs b) 2 = 0 \<and> agg_nsamples (infrs b) 3 = 0"
    by simp
  with b have 5: "\<exists>this'. sample ?ok = Inr this'
         \<and> agg_nsamples (infrs this') 0 = 1 \<and> agg_nsamples (infrs this') 1 = 0
         \<and> agg_nsamples (infrs this') 2 = 0 \<and> agg_nsamples (infrs this') 3 = 0"
    by blast
  from used sample_sgd_single_variable_example_0 z
  have 6: "\<exists>this'. sample_sgd_single_variable ?ok 0 (1 / 10) = Inr this'
         \<and> agg_nsamples (infrs this') = (\<lambda>vid. 0)"
    by metis
  from sample_sgd_example_returns obtain c where c: "sample_sgd ?ok (1 / 10) = Inr c"
    by blast
  from used c z have "agg_nsamples (infrs c) = (\<lambda>vid. 0) \<and> agg_means (infrs c) = (\<lambda>vid. 0)
         \<and> multinomial_tallies (infrs c) = (\<lambda>i. 0)"
    by metis
  with c have 7: "\<exists>this'. sample_sgd ?ok (1 / 10) = Inr this'
         \<and> agg_nsamples (infrs this') = (\<lambda>vid. 0) \<and> agg_means (infrs this') = (\<lambda>vid. 0)
         \<and> multinomial_tallies (infrs this') = (\<lambda>i. 0)"
    by blast
  from 1 2 3 4 5 6 7 show ?thesis
    by (intro conjI) assumption+
qed

theorem reseeded_workers_draw_alike_witness:
  "fg ((example_worker (5, 6, 7) (\<lambda>i. 0))\<lparr>varlen_potential_buffer :=
          \<lparr>elems = (\<lambda>i. 9), vsize = 4, vcapacity = 8\<rparr>\<rparr>)
     = fg (example_worker (1, 2, 3) (\<lambda>i. 0))
   \<and> draw_samples (set_random_seed (example_worker (1, 2, 3) (\<lambda>i. 0)) 0 0 0)
        [(example_variable 3, \<lambda>vid. 0, \<lambda>i. 0), (example_variable 0, \<lambda>vid. 0, \<lambda>i. 0)]
     = draw_samples
        (set_random_seed
           ((example_worker (5, 6, 7) (\<lambda>i. 0))\<lparr>varlen_potential_buffer :=
              \<lparr>elems = (\<lambda>i. 9), vsize = 4, vcapacity = 8\<rparr>\<rparr>) 0 0 0)
        [(example_variable 3, \<lambda>vid. 0, \<lambda>i. 0), (example_variable 0, \<lambda>vid. 0, \<lambda>i. 0)]
   \<and> draw_samples (set_random_seed (example_worker (1, 2, 3) (\<lambda>i. 0)) 0 0 0)
        [(example_variable 3, \<lambda>vid. 0, \<lambda>i. 0), (example_variable 0, \<lambda>vid. 0, \<lambda>i. 0)]
     = [Inr 0, Inr 1]
   \<and> rel_sum (=) up_to_buffer
        (sample (set_random_seed (example_worker (1, 2, 3) (\<lambda>i. 0)) 0 0 0))
        (sample (set_random_seed
           ((example_worker (5, 6, 7) (\<lambda>i. 0))\<lparr>varlen_potential_buffer :=
              \<lparr>elems = (\<lambda>i. 9), vsize = 4, vcapacity = 8\<rparr>\<rparr>) 0 0 0))
   \<and> rel_sum (=) up_to_buffer
        (sample_sgd (set_random_seed (example_worker (1, 2, 3) (\<lambda>i. 0)) 0 0 0) (1 / 10))
        (sample_sgd (set_random_seed
           ((example_worker (5, 6, 7) (\<lambda>i. 0))\<lparr>varlen_potential_buffer :=
              \<lparr>elems = (\<lambda>i. 9), vsize = 4, vcapacity = 8\<rparr>\<rparr>) 0 0 0) (1 / 10))"
proof -
  let ?w1 = "example_worker (1, 2, 3) (\<lambda>i. 0)"
  let ?w2 = "(example_worker (5, 6, 7) (\<lambda>i. 0))\<lparr>varlen_potential_buffer :=
          \<lparr>elems = (\<lambda>i. 9), vsize = 4, vcapacity = 8\<rparr>\<rparr>"
  let ?calls = "[(example_variable 3, \<lambda>vid. 0, \<lambda>i. 0), (example_variable 0, \<lambda>vid. 0, \<lambda>i. 0)]"
  have 1: "fg ?w2 = fg ?w1"
    by (simp add: example_worker_sel)
  have 2: "start ?w2 = start ?w1 \<and> end_vid ?w2 = end_vid ?w1 \<and> fg ?w2 = fg ?w1
        \<and> infrs ?w2 = infrs ?w1 \<and> sample_evidence ?w2 = sample_evidence ?w1
        \<and> learn_non_evidence ?w2 = learn_non_evidence ?w1"
    by (simp add: example_worker_sel)
  note used = reseeded_workers_draw_alike [of ?w2 ?w1 0 0 0 ?calls "1 / 10"]
  have 3: "draw_samples (set_random_seed ?w1 0 0 0) ?calls = [Inr 0, Inr 1]"
    by (simp add: set_random_seed_def draw_sample_example_multinomial_at
        draw_sample_example_boolean example_worker_sel erand48_example)
  from used 1 2 3 show ?thesis
    by blast
qed

theorem boolean_draw_probability_witness:
  "domain_type (example_variable 0) = DTYPE_BOOLEAN
   \<and> potential (fg (example_worker (0, 0, 0) (\<lambda>i. 0))) (example_variable 0) 1 (\<lambda>vid. 0) (\<lambda>i. 0) = 0
   \<and> potential (fg (example_worker (0, 0, 0) (\<lambda>i. 0))) (example_variable 0) 0 (\<lambda>vid. 0) (\<lambda>i. 0) = 0
   \<and> fst (erand48 (p_rand_seed (example_worker (0, 0, 0) (\<lambda>i. 0)))) = 11 / 2 ^ 48
   \<and> draw_sample (example_worker (0, 0, 0) (\<lambda>i. 0)) (example_variable 0) (\<lambda>vid. 0) (\<lambda>i. 0)
       = Inr (1, (example_worker (0, 0, 0) (\<lambda>i. 0))\<lparr>p_rand_seed := (11, 0, 0)\<rparr>)
   \<and> {r. 0 \<le> r \<and> r < 1 \<and> flip_coin 0 0 r = 1} = {0 ..< 1 / 2}"
proof -
  let ?ok = "example_worker (0, 0, 0) (\<lambda>i. 0)"
  have 1: "domain_type (example_variable 0) = DTYPE_BOOLEAN"
    by (simp add: example_variable_sel)
  have 2: "potential (fg ?ok) (example_variable 0) 1 (\<lambda>vid. 0) (\<lambda>i. 0) = 0"
    and 3: "potential (fg ?ok) (example_variable 0) 0 (\<lambda>vid. 0) (\<lambda>i. 0) = 0"
    and 4: "fst (erand48 (p_rand_seed ?ok)) = 11 / 2 ^ 48"
    and s: "snd (erand48 (p_rand_seed ?ok)) = (11, 0, 0)"
    by (simp_all add: example_worker_sel example_graph_sel erand48_example)
  note used = boolean_draw_probability [OF 1, of ?ok "\<lambda>vid. 0" "\<lambda>i. 0"]
  from used have 5: "draw_sample ?ok (example_variable 0) (\<lambda>vid. 0) (\<lambda>i. 0)
       = Inr (1, ?ok\<lparr>p_rand_seed := (11, 0, 0)\<rparr>)"
    unfolding 2 3 4 s by simp
  from used have 6: "{r. 0 \<le> r \<and> r < 1 \<and> flip_coin 0 0 r = 1} = {0 ..< 1 / 2}"
    unfolding 2 3 by simp
  from 1 2 3 4 5 6 show ?thesis
    by (intro conjI) assumption+
qed






end
